theory Spec2Isabelle
  imports Complex_Main
begin

section \<open>Text\<close>

text \<open>
  A Python \<open>str\<close> is a sequence of code points. The model covers the code points
  0..255: one \<open>char\<close> is one code point, and the character classes below are the ones
  Python's \<open>str\<close> methods and the \<open>re\<close> module (Unicode mode, the default for \<open>str\<close>
  patterns) assign to these code points.
\<close>

definition code_point :: "char \<Rightarrow> int" where
  "code_point c = of_char c"

text \<open>\<open>str.isspace\<close>, the class \<open>\s\<close>, and what \<open>str.strip()\<close> and \<open>str.split()\<close> remove.\<close>

definition is_space :: "char \<Rightarrow> bool" where
  "is_space c = (let n = code_point c in
     (9 \<le> n \<and> n \<le> 13) \<or> (28 \<le> n \<and> n \<le> 32) \<or> n = 133 \<or> n = 160)"

text \<open>The class \<open>\d\<close>: the decimal digits.\<close>

definition is_digit :: "char \<Rightarrow> bool" where
  "is_digit c = (let n = code_point c in 48 \<le> n \<and> n \<le> 57)"

text \<open>The class \<open>\w\<close>: alphanumeric code points and the underscore.\<close>

definition is_word :: "char \<Rightarrow> bool" where
  "is_word c = (let n = code_point c in
     (48 \<le> n \<and> n \<le> 57) \<or> (65 \<le> n \<and> n \<le> 90) \<or> n = 95 \<or> (97 \<le> n \<and> n \<le> 122) \<or>
     n = 170 \<or> n = 178 \<or> n = 179 \<or> n = 181 \<or> n = 185 \<or> n = 186 \<or>
     (188 \<le> n \<and> n \<le> 190) \<or> (192 \<le> n \<and> n \<le> 214) \<or> (216 \<le> n \<and> n \<le> 246) \<or>
     (248 \<le> n \<and> n \<le> 255))"

text \<open>\<open>str.lower()\<close> on one code point.\<close>

definition lower_char :: "char \<Rightarrow> char" where
  "lower_char c = (let n = code_point c in
     if 65 \<le> n \<and> n \<le> 90 then char_of (n + 32)
     else if 192 \<le> n \<and> n \<le> 222 \<and> n \<noteq> 215 then char_of (n + 32)
     else c)"

definition lower :: "string \<Rightarrow> string" where
  "lower s = map lower_char s"

definition lstrip :: "string \<Rightarrow> string" where
  "lstrip s = dropWhile is_space s"

definition rstrip :: "string \<Rightarrow> string" where
  "rstrip s = rev (dropWhile is_space (rev s))"

definition strip :: "string \<Rightarrow> string" where
  "strip s = rstrip (lstrip s)"

text \<open>\<open>s.startswith(w)\<close> and the substring test \<open>w in s\<close>.\<close>

fun startswith :: "string \<Rightarrow> string \<Rightarrow> bool" where
  "startswith s [] = True"
| "startswith [] (w # ws) = False"
| "startswith (x # xs) (w # ws) = (x = w \<and> startswith xs ws)"

fun contains :: "string \<Rightarrow> string \<Rightarrow> bool" where
  "contains [] w = (w = [])"
| "contains (x # xs) w = (startswith (x # xs) w \<or> contains xs w)"

text \<open>\<open>any(word in s for word in ws)\<close>.\<close>

definition any_in :: "string list \<Rightarrow> string \<Rightarrow> bool" where
  "any_in ws s = list_ex (contains s) ws"

text \<open>\<open>s.split(sep)\<close> for a one-character separator: never empty, keeps empty pieces.\<close>

fun split_on :: "char \<Rightarrow> string \<Rightarrow> string list" where
  "split_on sep [] = [[]]"
| "split_on sep (x # xs) =
     (if x = sep then [] # split_on sep xs
      else (case split_on sep xs of p # ps \<Rightarrow> (x # p) # ps | [] \<Rightarrow> [[x]]))"

text \<open>\<open>s.split()\<close>: the maximal runs of non-whitespace.\<close>

fun split_ws_acc :: "string \<Rightarrow> string \<Rightarrow> string list" where
  "split_ws_acc acc [] = (if acc = [] then [] else [rev acc])"
| "split_ws_acc acc (x # xs) =
     (if is_space x then (if acc = [] then split_ws_acc [] xs else rev acc # split_ws_acc [] xs)
      else split_ws_acc (x # acc) xs)"

definition split_ws :: "string \<Rightarrow> string list" where
  "split_ws s = split_ws_acc [] s"

text \<open>\<open>sep.join(ws)\<close>.\<close>

fun join :: "string \<Rightarrow> string list \<Rightarrow> string" where
  "join sep [] = []"
| "join sep [w] = w"
| "join sep (w # v # ws) = w @ sep @ join sep (v # ws)"

text \<open>\<open>s.zfill(n)\<close> for a string without sign.\<close>

definition zfill :: "nat \<Rightarrow> string \<Rightarrow> string" where
  "zfill n s = replicate (n - length s) (CHR ''0'') @ s"

section \<open>Regular expressions\<close>

text \<open>
  The fragment of Python's \<open>re\<close> syntax the patterns of the processor are written in.
  Quantifiers apply to one character class (\<open>\s+\<close>, \<open>\d{1,2}\<close>, \<open>[^,]+\<close>, \<open>.+\<close>) or
  make a subexpression optional (\<open>(?:a\s+)?\<close>, \<open>days?\<close>); all of them are greedy.
\<close>

datatype cset =
    CSpace                \<comment> \<open>\<open>\s\<close>\<close>
  | CDigit                \<comment> \<open>\<open>\d\<close>\<close>
  | CWord                 \<comment> \<open>\<open>\w\<close>\<close>
  | CDot                  \<comment> \<open>\<open>.\<close>: anything but a newline\<close>
  | CIn string            \<comment> \<open>\<open>[abc]\<close>\<close>
  | CNotIn string         \<comment> \<open>\<open>[^abc]\<close>\<close>
  | CUnion cset cset      \<comment> \<open>\<open>[:\s]\<close>\<close>

fun in_cset :: "cset \<Rightarrow> char \<Rightarrow> bool" where
  "in_cset CSpace c = is_space c"
| "in_cset CDigit c = is_digit c"
| "in_cset CWord c = is_word c"
| "in_cset CDot c = (c \<noteq> CHR 0x0A)"
| "in_cset (CIn s) c = (c \<in> set s)"
| "in_cset (CNotIn s) c = (c \<notin> set s)"
| "in_cset (CUnion a b) c = (in_cset a c \<or> in_cset b c)"

datatype regex =
    Lit string                      \<comment> \<open>a literal word\<close>
  | Cls cset                        \<comment> \<open>one character of a class\<close>
  | Rep cset nat "nat option"       \<comment> \<open>\<open>c{lo,hi}\<close>, greedy; \<open>c+\<close> is \<open>Rep c 1 None\<close>\<close>
  | Opt regex                       \<comment> \<open>\<open>(?:r)?\<close>, greedy\<close>
  | Alt "regex list"                \<comment> \<open>\<open>a|b|c\<close>, tried left to right\<close>
  | Seq "regex list"                \<comment> \<open>concatenation\<close>
  | Grp regex                       \<comment> \<open>a capturing group \<open>(r)\<close>\<close>
  | Bnd                             \<comment> \<open>\<open>\b\<close>\<close>

abbreviation Plus :: "cset \<Rightarrow> regex" where
  "Plus c \<equiv> Rep c 1 None"

text \<open>
  A matcher state: the character before the current position (for \<open>\b\<close>), the text
  still to read, and the groups captured so far, in order. No group of the processor's
  patterns lies inside an optional part or a repetition, so every group of a successful
  match has taken part in it.
\<close>

type_synonym mstate = "char option \<times> string \<times> string list"

text \<open>Under \<open>re.IGNORECASE\<close> a literal matches both cases of a letter.\<close>

definition chr_eq :: "bool \<Rightarrow> char \<Rightarrow> char \<Rightarrow> bool" where
  "chr_eq ic a x = (if ic then lower_char x = lower_char a else x = a)"

fun lit_match :: "bool \<Rightarrow> string \<Rightarrow> char option \<Rightarrow> string \<Rightarrow> (char option \<times> string) option" where
  "lit_match ic [] p r = Some (p, r)"
| "lit_match ic (a # as) p [] = None"
| "lit_match ic (a # as) p (x # xs) = (if chr_eq ic a x then lit_match ic as (Some x) xs else None)"

definition word_at :: "char option \<Rightarrow> bool" where
  "word_at p = (case p of None \<Rightarrow> False | Some c \<Rightarrow> is_word c)"

definition next_char :: "string \<Rightarrow> char option" where
  "next_char r = (case r of [] \<Rightarrow> None | x # _ \<Rightarrow> Some x)"

text \<open>The state after reading the first \<open>k\<close> characters of the remaining text.\<close>

definition advance :: "char option \<Rightarrow> string \<Rightarrow> string list \<Rightarrow> nat \<Rightarrow> mstate" where
  "advance p r g k = (if k = 0 then (p, r, g) else (Some (r ! (k - 1)), drop k r, g))"

text \<open>
  \<open>mt ic e st\<close> lists the states in which a match of \<open>e\<close> started in \<open>st\<close> can end, in the
  order in which the backtracking matcher of \<open>re\<close> tries them: the longest repetition
  first, the optional part taken before it is skipped, alternatives left to right.
\<close>

fun mt :: "bool \<Rightarrow> regex \<Rightarrow> mstate \<Rightarrow> mstate list" where
  "mt ic (Lit s) (p, r, g) =
     (case lit_match ic s p r of None \<Rightarrow> [] | Some (p', r') \<Rightarrow> [(p', r', g)])"
| "mt ic (Cls c) (p, r, g) =
     (case r of [] \<Rightarrow> [] | x # xs \<Rightarrow> if in_cset c x then [(Some x, xs, g)] else [])"
| "mt ic (Rep c lo hi) (p, r, g) =
     (let n = length (takeWhile (in_cset c) r);
          m = (case hi of None \<Rightarrow> n | Some h \<Rightarrow> min h n)
      in map (advance p r g) (rev [lo ..< Suc m]))"
| "mt ic (Opt e) st = mt ic e st @ [st]"
| "mt ic (Alt es) st = concat (map (\<lambda>e. mt ic e st) es)"
| "mt ic (Seq []) st = [st]"
| "mt ic (Seq (e # es)) st = concat (map (mt ic (Seq es)) (mt ic e st))"
| "mt ic (Grp e) (p, r, g) =
     map (\<lambda>(p', r', g'). (p', r', g' @ [take (length r - length r') r])) (mt ic e (p, r, g))"
| "mt ic Bnd (p, r, g) = (if word_at p \<noteq> word_at (next_char r) then [(p, r, g)] else [])"

text \<open>
  \<open>re.search\<close>: the first match at the leftmost position where there is one. The
  result stands for the match object: \<open>match.groups()\<close>, so \<open>match.group(k)\<close> is its
  element \<open>k - 1\<close>.
\<close>

fun search_from :: "bool \<Rightarrow> regex \<Rightarrow> char option \<Rightarrow> string \<Rightarrow> string list option" where
  "search_from ic e p [] =
     (case mt ic e (p, [], []) of [] \<Rightarrow> None | (_, _, g) # _ \<Rightarrow> Some g)"
| "search_from ic e p (x # xs) =
     (case mt ic e (p, x # xs, []) of [] \<Rightarrow> search_from ic e (Some x) xs
      | (_, _, g) # _ \<Rightarrow> Some g)"

definition search :: "regex \<Rightarrow> string \<Rightarrow> string list option" where
  "search e s = search_from False e None s"

definition search_ic :: "regex \<Rightarrow> string \<Rightarrow> string list option" where
  "search_ic e s = search_from True e None s"

definition found :: "string list option \<Rightarrow> bool" where
  "found m = (m \<noteq> None)"

section \<open>The pattern library\<close>

text \<open>
  The regular expressions of \<open>nlp_processor.py\<close>, in the order of the source. The
  dictionaries of the source keep their insertion order, so a dictionary of patterns is
  an association list.
\<close>

definition quotes :: "string" where
  "quotes = [CHR 0x22, CHR 0x27]"

definition add_task_patterns :: "regex list" where
  "add_task_patterns =
     [Seq [Lit ''add'', Plus CSpace, Opt (Seq [Lit ''a'', Plus CSpace]), Opt (Seq [Lit ''new'',
       Plus CSpace]), Lit ''task'', Plus CSpace, Opt (Seq [Lit ''called'', Plus CSpace]),
       Cls (CIn quotes), Grp (Plus (CNotIn quotes)), Cls (CIn quotes)],
      Seq [Lit ''create'', Plus CSpace, Opt (Seq [Lit ''a'', Plus CSpace]),
       Opt (Seq [Lit ''new'', Plus CSpace]), Lit ''task'', Plus CSpace,
       Opt (Seq [Lit ''called'', Plus CSpace]), Cls (CIn quotes), Grp (Plus (CNotIn quotes)),
       Cls (CIn quotes)],
      Seq [Lit ''new'', Plus CSpace, Lit ''task'', Plus CSpace, Opt (Seq [Lit ''called'',
       Plus CSpace]), Cls (CIn quotes), Grp (Plus (CNotIn quotes)), Cls (CIn quotes)],
      Seq [Lit ''add'', Plus CSpace, Cls (CIn quotes), Grp (Plus (CNotIn quotes)),
       Cls (CIn quotes), Plus CSpace, Lit ''to'', Plus CSpace, Lit ''my'', Plus CSpace,
       Lit ''tasks''],
      Seq [Lit ''add'', Plus CSpace, Opt (Seq [Lit ''a'', Plus CSpace]), Lit ''task'',
       Plus CSpace, Opt (Seq [Lit ''about'', Plus CSpace]), Grp (Plus CDot)],
      Seq [Lit ''create'', Plus CSpace, Opt (Seq [Lit ''a'', Plus CSpace]), Lit ''task'',
       Plus CSpace, Opt (Seq [Lit ''about'', Plus CSpace]), Grp (Plus CDot)]]"

definition search_tasks_patterns :: "regex list" where
  "search_tasks_patterns =
     [Seq [Lit ''search'', Plus CSpace, Opt (Seq [Lit ''for'', Plus CSpace]), Cls (CIn quotes),
       Grp (Plus (CNotIn quotes)), Cls (CIn quotes)],
      Seq [Lit ''find'', Plus CSpace, Opt (Seq [Lit ''tasks'', Plus CSpace]),
       Opt (Seq [Lit ''about'', Plus CSpace]), Cls (CIn quotes), Grp (Plus (CNotIn quotes)),
       Cls (CIn quotes)],
      Seq [Lit ''look'', Plus CSpace, Lit ''for'', Plus CSpace, Opt (Seq [Lit ''tasks'',
       Plus CSpace]), Opt (Seq [Lit ''about'', Plus CSpace]), Cls (CIn quotes),
       Grp (Plus (CNotIn quotes)), Cls (CIn quotes)],
      Seq [Lit ''show'', Plus CSpace, Lit ''me'', Plus CSpace, Opt (Seq [Lit ''tasks'',
       Plus CSpace]), Opt (Seq [Lit ''about'', Plus CSpace]), Cls (CIn quotes),
       Grp (Plus (CNotIn quotes)), Cls (CIn quotes)],
      Seq [Lit ''search'', Plus CSpace, Opt (Seq [Lit ''for'', Plus CSpace]), Grp (Plus CDot)],
      Seq [Lit ''find'', Plus CSpace, Opt (Seq [Lit ''tasks'', Plus CSpace]),
       Opt (Seq [Lit ''about'', Plus CSpace]), Grp (Plus CDot)]]"

definition list_tasks_patterns :: "regex list" where
  "list_tasks_patterns =
     [Seq [Lit ''list'', Plus CSpace, Opt (Seq [Lit ''all'', Plus CSpace]), Lit ''tasks''],
      Seq [Lit ''show'', Plus CSpace, Opt (Seq [Lit ''all'', Plus CSpace]), Lit ''tasks''],
      Seq [Lit ''display'', Plus CSpace, Opt (Seq [Lit ''all'', Plus CSpace]), Lit ''tasks''],
      Seq [Lit ''what'', Plus CSpace, Lit ''tasks'', Plus CSpace, Lit ''do'', Plus CSpace,
       Lit ''I'', Plus CSpace, Lit ''have''],
      Seq [Lit ''my'', Plus CSpace, Lit ''tasks''],
      Seq [Lit ''all'', Plus CSpace, Lit ''tasks'']]"

definition update_task_patterns :: "regex list" where
  "update_task_patterns =
     [Seq [Alt [Lit ''mark'', Lit ''set''], Plus CSpace, Lit ''task'', Plus CSpace,
       Grp (Plus CDigit), Plus CSpace, Lit ''as'', Plus CSpace, Grp (Plus CWord)],
      Seq [Lit ''update'', Plus CSpace, Lit ''task'', Plus CSpace, Grp (Plus CDigit),
       Plus CSpace, Lit ''to'', Plus CSpace, Grp (Plus CWord)],
      Seq [Lit ''change'', Plus CSpace, Lit ''task'', Plus CSpace, Grp (Plus CDigit),
       Plus CSpace, Lit ''to'', Plus CSpace, Grp (Plus CWord)],
      Seq [Lit ''task'', Plus CSpace, Grp (Plus CDigit), Plus CSpace, Lit ''is'', Plus CSpace,
       Lit ''now'', Plus CSpace, Grp (Plus CWord)],
      Seq [Lit ''mark'', Plus CSpace, Grp (Plus CDigit), Plus CSpace, Lit ''as'', Plus CSpace,
       Grp (Plus CWord)],
      Seq [Lit ''complete'', Plus CSpace, Lit ''task'', Plus CSpace, Grp (Plus CDigit)],
      Seq [Lit ''finish'', Plus CSpace, Lit ''task'', Plus CSpace, Grp (Plus CDigit)],
      Seq [Lit ''update'', Plus CSpace, Grp (Plus CDigit), Plus CSpace, Lit ''to'',
       Plus CSpace, Grp (Plus CWord)],
      Seq [Lit ''change'', Plus CSpace, Grp (Plus CDigit), Plus CSpace, Lit ''to'',
       Plus CSpace, Grp (Plus CWord)],
      Seq [Lit ''set'', Plus CSpace, Grp (Plus CDigit), Plus CSpace, Lit ''to'', Plus CSpace,
       Grp (Plus CWord)],
      Seq [Lit ''mark'', Plus CSpace, Lit ''task'', Plus CSpace, Grp (Plus CDigit),
       Plus CSpace, Lit ''as'', Plus CSpace, Grp (Plus CWord)],
      Seq [Lit ''set'', Plus CSpace, Lit ''task'', Plus CSpace, Grp (Plus CDigit), Plus CSpace,
       Lit ''to'', Plus CSpace, Grp (Plus CWord)],
      Seq [Lit ''change'', Plus CSpace, Grp (Plus CDigit), Plus CSpace, Lit ''priority'',
       Plus CSpace, Lit ''to'', Plus CSpace, Grp (Plus CWord)],
      Seq [Lit ''update'', Plus CSpace, Grp (Plus CDigit), Plus CSpace, Lit ''priority'',
       Plus CSpace, Lit ''to'', Plus CSpace, Grp (Plus CWord)],
      Seq [Lit ''set'', Plus CSpace, Grp (Plus CDigit), Plus CSpace, Lit ''priority'',
       Plus CSpace, Lit ''to'', Plus CSpace, Grp (Plus CWord)],
      Seq [Lit ''mark'', Plus CSpace, Grp (Plus CDigit), Plus CSpace, Lit ''priority'',
       Plus CSpace, Lit ''as'', Plus CSpace, Grp (Plus CWord)]]"

definition delete_task_patterns :: "regex list" where
  "delete_task_patterns =
     [Seq [Lit ''delete'', Plus CSpace, Lit ''task'', Plus CSpace, Grp (Plus CDigit)],
      Seq [Lit ''remove'', Plus CSpace, Lit ''task'', Plus CSpace, Grp (Plus CDigit)],
      Seq [Lit ''cancel'', Plus CSpace, Lit ''task'', Plus CSpace, Grp (Plus CDigit)],
      Seq [Lit ''drop'', Plus CSpace, Lit ''task'', Plus CSpace, Grp (Plus CDigit)],
      Seq [Lit ''delete'', Plus CSpace, Grp (Plus CDigit)],
      Seq [Lit ''remove'', Plus CSpace, Grp (Plus CDigit)]]"

definition show_stats_patterns :: "regex list" where
  "show_stats_patterns =
     [Seq [Lit ''show'', Plus CSpace, Opt (Seq [Lit ''task'', Plus CSpace]),
       Lit ''statistics''],
      Seq [Lit ''display'', Plus CSpace, Opt (Seq [Lit ''task'', Plus CSpace]), Lit ''stats''],
      Seq [Lit ''what'', Plus CSpace, Lit ''are'', Plus CSpace, Lit ''my'', Plus CSpace,
       Lit ''task'', Plus CSpace, Lit ''stats''],
      Seq [Lit ''give'', Plus CSpace, Lit ''me'', Plus CSpace, Lit ''a'', Plus CSpace,
       Lit ''summary''],
      Lit ''stats'',
      Lit ''statistics'']"

definition command_patterns :: "(string \<times> regex list) list" where
  "command_patterns =
     [(''add_task'', add_task_patterns),
      (''search_tasks'', search_tasks_patterns),
      (''list_tasks'', list_tasks_patterns),
      (''update_task'', update_task_patterns),
      (''delete_task'', delete_task_patterns),
      (''show_stats'', show_stats_patterns)]"

definition priority_patterns :: "(string \<times> regex) list" where
  "priority_patterns =
     [(''high'', Seq [Bnd, Alt [Lit ''urgent'', Lit ''critical'', Lit ''asap'', Lit ''emergency'',
       Lit ''high'', Lit ''important'', Lit ''priority''], Bnd]),
      (''medium'', Seq [Bnd, Alt [Lit ''medium'', Lit ''normal'', Lit ''moderate''], Bnd]),
      (''low'', Seq [Bnd, Alt [Lit ''low'', Lit ''minor'', Lit ''optional''], Bnd])]"

definition status_patterns :: "(string \<times> regex) list" where
  "status_patterns =
     [(''completed'', Seq [Bnd, Alt [Lit ''done'', Lit ''completed'', Lit ''finished'', Lit ''complete''], Bnd]),
      (''in_progress'', Seq [Bnd, Alt [Seq [Lit ''in'', Plus CSpace, Lit ''progress''], Lit ''working'',
       Lit ''ongoing''], Bnd]),
      (''pending'', Seq [Bnd, Alt [Lit ''pending'', Lit ''waiting'', Seq [Lit ''not'', Plus CSpace,
       Lit ''started'']], Bnd])]"

definition re_today :: "regex" where
  "re_today = Seq [Bnd, Lit ''today'', Bnd]"

definition re_tomorrow :: "regex" where
  "re_tomorrow = Seq [Bnd, Lit ''tomorrow'', Bnd]"

definition re_yesterday :: "regex" where
  "re_yesterday = Seq [Bnd, Lit ''yesterday'', Bnd]"

definition re_this_morning :: "regex" where
  "re_this_morning = Seq [Bnd, Lit ''this'', Plus CSpace, Lit ''morning'', Bnd]"

definition re_this_afternoon :: "regex" where
  "re_this_afternoon = Seq [Bnd, Lit ''this'', Plus CSpace, Lit ''afternoon'', Bnd]"

definition re_this_evening :: "regex" where
  "re_this_evening = Seq [Bnd, Lit ''this'', Plus CSpace, Lit ''evening'', Bnd]"

definition re_tonight :: "regex" where
  "re_tonight = Seq [Bnd, Lit ''tonight'', Bnd]"

definition re_this_week :: "regex" where
  "re_this_week = Seq [Bnd, Lit ''this'', Plus CSpace, Lit ''week'', Bnd]"

definition re_next_week :: "regex" where
  "re_next_week = Seq [Bnd, Lit ''next'', Plus CSpace, Lit ''week'', Bnd]"

definition re_last_week :: "regex" where
  "re_last_week = Seq [Bnd, Lit ''last'', Plus CSpace, Lit ''week'', Bnd]"

definition re_this_month :: "regex" where
  "re_this_month = Seq [Bnd, Lit ''this'', Plus CSpace, Lit ''month'', Bnd]"

definition re_next_month :: "regex" where
  "re_next_month = Seq [Bnd, Lit ''next'', Plus CSpace, Lit ''month'', Bnd]"

definition re_last_month :: "regex" where
  "re_last_month = Seq [Bnd, Lit ''last'', Plus CSpace, Lit ''month'', Bnd]"

definition re_end_of_month :: "regex" where
  "re_end_of_month =
     Seq [Bnd, Lit ''end'', Plus CSpace, Lit ''of'', Plus CSpace, Lit ''month'', Bnd]"

definition re_end_of_week :: "regex" where
  "re_end_of_week =
     Seq [Bnd, Lit ''end'', Plus CSpace, Lit ''of'', Plus CSpace, Lit ''week'', Bnd]"

definition re_end_of_year :: "regex" where
  "re_end_of_year =
     Seq [Bnd, Lit ''end'', Plus CSpace, Lit ''of'', Plus CSpace, Lit ''year'', Bnd]"

definition re_next_weekday :: "regex" where
  "re_next_weekday =
     Seq [Bnd, Lit ''next'', Plus CSpace, Grp (Alt [Lit ''monday'', Lit ''tuesday'',
     Lit ''wednesday'', Lit ''thursday'', Lit ''friday'', Lit ''saturday'', Lit ''sunday'']),
     Bnd]"

definition re_this_weekday :: "regex" where
  "re_this_weekday =
     Seq [Bnd, Lit ''this'', Plus CSpace, Grp (Alt [Lit ''monday'', Lit ''tuesday'',
     Lit ''wednesday'', Lit ''thursday'', Lit ''friday'', Lit ''saturday'', Lit ''sunday'']),
     Bnd]"

definition re_in_days :: "regex" where
  "re_in_days =
     Seq [Bnd, Lit ''in'', Plus CSpace, Grp (Plus CDigit), Plus CSpace, Lit ''day'',
     Opt (Lit ''s''), Bnd]"

definition re_in_weeks :: "regex" where
  "re_in_weeks =
     Seq [Bnd, Lit ''in'', Plus CSpace, Grp (Plus CDigit), Plus CSpace, Lit ''week'',
     Opt (Lit ''s''), Bnd]"

definition re_in_months :: "regex" where
  "re_in_months =
     Seq [Bnd, Lit ''in'', Plus CSpace, Grp (Plus CDigit), Plus CSpace, Lit ''month'',
     Opt (Lit ''s''), Bnd]"

definition re_numeric_date :: "regex" where
  "re_numeric_date =
     Seq [Bnd, Grp (Rep CDigit 1 (Some 2)), Cls (CIn ''/-''), Grp (Rep CDigit 1 (Some 2)),
     Cls (CIn ''/-''), Grp (Rep CDigit 2 (Some 4)), Bnd]"

definition re_month_name :: "regex" where
  "re_month_name =
     Seq [Bnd, Grp (Alt [Lit ''january'', Lit ''february'', Lit ''march'', Lit ''april'',
     Lit ''may'', Lit ''june'', Lit ''july'', Lit ''august'', Lit ''september'',
     Lit ''october'', Lit ''november'', Lit ''december'']), Plus CSpace,
     Grp (Rep CDigit 1 (Some 2)), Bnd]"

definition desc_patterns :: "regex list" where
  "desc_patterns =
     [Seq [Lit ''description'', Plus (CUnion (CIn '':'') CSpace), Grp (Plus (CNotIn '',''))],
      Seq [Lit ''about'', Plus (CUnion (CIn '':'') CSpace), Grp (Plus (CNotIn '',''))],
      Seq [Lit ''for'', Plus (CUnion (CIn '':'') CSpace), Grp (Plus (CNotIn '',''))]]"

definition explicit_tag_patterns :: "regex list" where
  "explicit_tag_patterns =
     [Seq [Lit ''tag'', Opt (Lit ''s''), Plus (CUnion (CIn '':'') CSpace),
       Grp (Plus (CNotIn '',''))],
      Seq [Lit ''category'', Plus (CUnion (CIn '':'') CSpace), Grp (Plus (CNotIn '',''))],
      Seq [Lit ''with'', Plus CSpace, Lit ''tag'', Opt (Lit ''s''), Plus CSpace,
       Grp (Plus (CNotIn '',''))]]"

definition time_tag_patterns :: "(regex \<times> string) list" where
  "time_tag_patterns =
     [(Seq [Bnd, Lit ''today'', Bnd], ''today''),
      (Seq [Bnd, Lit ''tomorrow'', Bnd], ''tomorrow''),
      (Seq [Bnd, Lit ''this'', Plus CSpace, Lit ''week'', Bnd], ''this_week''),
      (Seq [Bnd, Lit ''next'', Plus CSpace, Lit ''week'', Bnd], ''next_week''),
      (Seq [Bnd, Lit ''this'', Plus CSpace, Lit ''month'', Bnd], ''this_month''),
      (Seq [Bnd, Lit ''next'', Plus CSpace, Lit ''month'', Bnd], ''next_month''),
      (Seq [Bnd, Lit ''weekend'', Bnd], ''weekend''),
      (Seq [Bnd, Lit ''weekday'', Bnd], ''weekday''),
      (Seq [Bnd, Lit ''morning'', Bnd], ''morning''),
      (Seq [Bnd, Lit ''afternoon'', Bnd], ''afternoon''),
      (Seq [Bnd, Lit ''evening'', Bnd], ''evening''),
      (Seq [Bnd, Lit ''night'', Bnd], ''night'')]"

definition re_quoted :: "regex" where
  "re_quoted = Seq [Cls (CIn quotes), Grp (Plus (CNotIn quotes)), Cls (CIn quotes)]"


section \<open>Calendar\<close>

text \<open>
  \<open>datetime.now()\<close> is the anchor date. Only its date part reaches a result
  (\<open>strftime('%Y-%m-%d')\<close>), so a \<open>datetime\<close> is modelled by its date.
\<close>

record date =
  year :: int
  month :: int
  day :: int

datatype error = ValueError | OverflowError | IndexError

definition is_leap :: "int \<Rightarrow> bool" where
  "is_leap y = (if y mod 100 = 0 then y mod 400 = 0 else y mod 4 = 0)"

definition days_in_month :: "int \<Rightarrow> int \<Rightarrow> int" where
  "days_in_month y m =
     (if m = 2 then (if is_leap y then 29 else 28)
      else if m = 4 \<or> m = 6 \<or> m = 9 \<or> m = 11 then 30 else 31)"

text \<open>The dates a \<open>datetime\<close> can hold: years 1 to 9999.\<close>

definition valid_date :: "date \<Rightarrow> bool" where
  "valid_date d =
     (1 \<le> year d \<and> year d \<le> 9999 \<and> 1 \<le> month d \<and> month d \<le> 12 \<and>
      1 \<le> day d \<and> day d \<le> days_in_month (year d) (month d))"

definition days_before_year :: "int \<Rightarrow> int" where
  "days_before_year y =
     (let p = y - 1 in 365 * p + p div 4 - p div 100 + p div 400)"

definition days_before_month :: "int \<Rightarrow> int \<Rightarrow> int" where
  "days_before_month y m = sum_list (map (days_in_month y) [1 .. m - 1])"

definition toordinal :: "date \<Rightarrow> int" where
  "toordinal d = days_before_year (year d) + days_before_month (year d) (month d) + day d"

text \<open>\<open>weekday()\<close>: Monday is 0, Sunday is 6.\<close>

definition weekday :: "date \<Rightarrow> int" where
  "weekday d = (toordinal d + 6) mod 7"

definition next_day :: "date \<Rightarrow> date" where
  "next_day d =
     (if day d < days_in_month (year d) (month d) then d\<lparr>day := day d + 1\<rparr>
      else if month d < 12 then d\<lparr>month := month d + 1, day := 1\<rparr>
      else \<lparr>year = year d + 1, month = 1, day = 1\<rparr>)"

definition prev_day :: "date \<Rightarrow> date" where
  "prev_day d =
     (if 1 < day d then d\<lparr>day := day d - 1\<rparr>
      else if 1 < month d
        then d\<lparr>month := month d - 1, day := days_in_month (year d) (month d - 1)\<rparr>
      else \<lparr>year = year d - 1, month = 12, day = 31\<rparr>)"

text \<open>Stepping past 9999-12-31 or before 0001-01-01 is the OverflowError of date arithmetic.\<close>

fun plus_days :: "date \<Rightarrow> nat \<Rightarrow> error + date" where
  "plus_days d 0 = Inr d"
| "plus_days d (Suc n) =
     (if year d = 9999 \<and> month d = 12 \<and> day d = 31 then Inl OverflowError
      else plus_days (next_day d) n)"

fun minus_days :: "date \<Rightarrow> nat \<Rightarrow> error + date" where
  "minus_days d 0 = Inr d"
| "minus_days d (Suc n) =
     (if year d = 1 \<and> month d = 1 \<and> day d = 1 then Inl OverflowError
      else minus_days (prev_day d) n)"

text \<open>
  \<open>d + timedelta(days=n)\<close>, and \<open>d - timedelta(days=k)\<close> as \<open>add_days d (- k)\<close>. A
  \<open>timedelta\<close> of more than 999999999 days cannot be built (OverflowError).
\<close>

definition add_days :: "date \<Rightarrow> int \<Rightarrow> error + date" where
  "add_days d n =
     (if 999999999 < \<bar>n\<bar> then Inl OverflowError
      else if 0 \<le> n then plus_days d (nat n) else minus_days d (nat (- n)))"

text \<open>The integers that fit a C \<open>int\<close>, which the arguments of \<open>replace\<close> are converted to.\<close>

definition c_int :: "int \<Rightarrow> bool" where
  "c_int v = (- 2147483648 \<le> v \<and> v \<le> 2147483647)"

text \<open>
  \<open>d.replace(year=y, month=m, day=dd)\<close>; an absent argument keeps the field. An
  argument that does not fit a C \<open>int\<close> is an OverflowError, any other date that does
  not exist a ValueError.
\<close>

definition replace :: "date \<Rightarrow> int option \<Rightarrow> int option \<Rightarrow> int option \<Rightarrow> error + date" where
  "replace d y m dd =
     (let r = \<lparr>year = (case y of None \<Rightarrow> year d | Some v \<Rightarrow> v),
               month = (case m of None \<Rightarrow> month d | Some v \<Rightarrow> v),
               day = (case dd of None \<Rightarrow> day d | Some v \<Rightarrow> v)\<rparr>
      in if c_int (year r) \<and> c_int (month r) \<and> c_int (day r)
         then (if valid_date r then Inr r else Inl ValueError)
         else Inl OverflowError)"

text \<open>
  Decimal notation of an integer that is not negative, as \<open>str(n)\<close> and \<open>f"{n}"\<close>
  write it; the processor formats no negative number.
\<close>

definition digit_char :: "int \<Rightarrow> char" where
  "digit_char n = char_of (48 + n)"

function dec :: "int \<Rightarrow> string" where
  "dec n = (if n < 10 then [digit_char n] else dec (n div 10) @ [digit_char (n mod 10)])"
  by pat_completeness auto
termination
  by (relation "measure nat") auto

declare dec.simps [simp del]

text \<open>\<open>f"{n:02d}"\<close> for an integer that is not negative.\<close>

definition dec02 :: "int \<Rightarrow> string" where
  "dec02 n = zfill 2 (dec n)"

text \<open>
  \<open>d.strftime('%Y-%m-%d')\<close>, as CPython writes it with the C library of Linux: the
  year without padding (four digits from the year 1000 on), month and day with two
  digits.
\<close>

definition strftime :: "date \<Rightarrow> string" where
  "strftime d = dec (year d) @ ''-'' @ dec02 (month d) @ ''-'' @ dec02 (day d)"

section \<open>The environment of a call\<close>

text \<open>
  What a call of the processor reads besides its argument:
  \<^item> \<open>now\<close>: the value of \<open>datetime.now()\<close>, taken to be the same at every call inside
    one \<open>parse_command\<close>;
  \<^item> \<open>set_order\<close>: the order in which \<open>list(set(xs))\<close> lists the elements of the set
    built from \<open>xs\<close>. It depends on the hashes of the strings, which are fixed inside
    one interpreter process and differ between processes;
  \<^item> \<open>int_max_str_digits\<close>: the interpreter's limit on the length of a digit string
    that \<open>int()\<close> converts (0: no limit; 4300 by default since Python 3.11).
\<close>

record env =
  now :: date
  set_order :: "string list \<Rightarrow> string list"
  int_max_str_digits :: nat


text \<open>
  \<open>int(s)\<close> on the text of a group \<open>\d+\<close> or \<open>\d{1,2}\<close>, the only arguments the processor
  gives it.
\<close>

definition digit_val :: "char \<Rightarrow> int" where
  "digit_val c = code_point c - 48"

definition digits_to_int :: "string \<Rightarrow> int" where
  "digits_to_int s = foldl (\<lambda>acc c. 10 * acc + digit_val c) 0 s"

definition py_int :: "env \<Rightarrow> string \<Rightarrow> error + int" where
  "py_int e s =
     (if s = [] then Inl ValueError
      else if list_all is_digit s then
        (if 0 < int_max_str_digits e \<and> int_max_str_digits e < length s then Inl ValueError
         else Inr (digits_to_int s))
      else Inl ValueError)"

section \<open>Commands\<close>

text \<open>
  The processor returns a dictionary. A float is one of the literals 0.9, 0.8, 0.7 and
  0.0 of the source, stored and never computed with; it is modelled by its decimal value.
\<close>

datatype pyval = PyStr string | PyInt int | PyFloat rat | PyList "string list" | PyNone

type_synonym command = "string \<rightharpoonup> pyval"

text \<open>\<open>match.groups()\<close> is the list of captured texts; \<open>match.group(k)\<close> for \<open>k \<ge> 1\<close>.\<close>

definition group :: "string list \<Rightarrow> nat \<Rightarrow> error + string" where
  "group g k = (if 1 \<le> k \<and> k \<le> length g then Inr (g ! (k - 1)) else Inl IndexError)"

text \<open>Sequencing of computations that may raise.\<close>

definition bind :: "error + 'a \<Rightarrow> ('a \<Rightarrow> error + 'b) \<Rightarrow> error + 'b" where
  "bind r f = (case r of Inl err \<Rightarrow> Inl err | Inr v \<Rightarrow> f v)"

section \<open>Due dates\<close>

definition day_map :: "(string \<times> int) list" where
  "day_map =
     [(''monday'', 0), (''tuesday'', 1), (''wednesday'', 2), (''thursday'', 3),
      (''friday'', 4), (''saturday'', 5), (''sunday'', 6)]"

text \<open>\<open>d.get(k, default)\<close> on a dictionary given as an association list.\<close>

definition get_default :: "(string \<times> 'a) list \<Rightarrow> string \<Rightarrow> 'a \<Rightarrow> 'a" where
  "get_default d k dflt = (case map_of d k of None \<Rightarrow> dflt | Some v \<Rightarrow> v)"

text \<open>A date that was computed, or the exception of computing it, as the string returned.\<close>

definition iso :: "error + date \<Rightarrow> error + string option" where
  "iso r = bind r (\<lambda>d. Inr (Some (strftime d)))"

definition get_next_weekday :: "env \<Rightarrow> string \<Rightarrow> error + string option" where
  "get_next_weekday e day_name =
     (let today = now e;
          target_day = get_default day_map (lower day_name) 0;
          days_ahead = target_day - weekday today;
          days_ahead = (if days_ahead \<le> 0 then days_ahead + 7 else days_ahead)
      in iso (add_days today days_ahead))"

definition get_this_weekday :: "env \<Rightarrow> string \<Rightarrow> error + string option" where
  "get_this_weekday e day_name =
     (let today = now e;
          target_day = get_default day_map (lower day_name) 0;
          days_ahead = target_day - weekday today
      in if days_ahead < 0 then Inr None
         else iso (add_days today days_ahead))"

definition months :: "(string \<times> int) list" where
  "months =
     [(''january'', 1), (''february'', 2), (''march'', 3), (''april'', 4),
      (''may'', 5), (''june'', 6), (''july'', 7), (''august'', 8),
      (''september'', 9), (''october'', 10), (''november'', 11), (''december'', 12)]"

definition month_name_to_number :: "string \<Rightarrow> int" where
  "month_name_to_number month_name = get_default months (lower month_name) 1"

text \<open>
  \<open>(today.replace(day=1) + timedelta(days=32)).replace(day=1)\<close>: the first day of the
  month after the anchor's.
\<close>

definition first_of_next_month :: "date \<Rightarrow> error + date" where
  "first_of_next_month today =
     bind (replace today None None (Some 1)) (\<lambda>d1.
     bind (add_days d1 32) (\<lambda>d2.
     replace d2 None None (Some 1)))"

definition end_of_this_month :: "date \<Rightarrow> error + date" where
  "end_of_this_month today = bind (first_of_next_month today) (\<lambda>d. add_days d (- 1))"

text \<open>
  \<open>_parse_due_date\<close>: the chain of \<open>if\<close>/\<open>elif\<close> of the source, the first rule whose
  expression is found in the lower-cased text decides. The rules that read a group search
  the same expression in the same text a second time; the model searches once.
\<close>

definition parse_due_date :: "env \<Rightarrow> string \<Rightarrow> error + string option" where
  "parse_due_date e text =
     (let today = now e; text_lower = lower text in
      if found (search re_today text_lower) then Inr (Some (strftime today))
      else if found (search re_tomorrow text_lower) then iso (add_days today 1)
      else if found (search re_yesterday text_lower) then iso (add_days today (- 1))
      else if found (search re_this_morning text_lower) then Inr (Some (strftime today))
      else if found (search re_this_afternoon text_lower) then Inr (Some (strftime today))
      else if found (search re_this_evening text_lower) then Inr (Some (strftime today))
      else if found (search re_tonight text_lower) then Inr (Some (strftime today))
      else if found (search re_this_week text_lower)
        then iso (add_days today (6 - weekday today))
      else if found (search re_next_week text_lower)
        then iso (add_days today (7 - weekday today))
      else if found (search re_last_week text_lower)
        then iso (add_days today (- (weekday today + 7)))
      else if found (search re_this_month text_lower) then iso (end_of_this_month today)
      else if found (search re_next_month text_lower) then iso (first_of_next_month today)
      else if found (search re_last_month text_lower)
        then iso (bind (replace today None None (Some 1)) (\<lambda>d1.
                  bind (add_days d1 (- 1)) (\<lambda>d2. replace d2 None None (Some 1))))
      else if found (search re_end_of_month text_lower) then iso (end_of_this_month today)
      else if found (search re_end_of_week text_lower)
        then iso (add_days today (6 - weekday today))
      else if found (search re_end_of_year text_lower)
        then iso (replace today None (Some 12) (Some 31))
      else (case search re_next_weekday text_lower of
        Some day_match \<Rightarrow> bind (group day_match 1) (get_next_weekday e)
      | None \<Rightarrow>
      (case search re_this_weekday text_lower of
        Some day_match \<Rightarrow> bind (group day_match 1) (get_this_weekday e)
      | None \<Rightarrow>
      (case search re_in_days text_lower of
        Some days_match \<Rightarrow>
          bind (group days_match 1) (\<lambda>g. bind (py_int e g) (\<lambda>days.
          iso (add_days today days)))
      | None \<Rightarrow>
      (case search re_in_weeks text_lower of
        Some weeks_match \<Rightarrow>
          bind (group weeks_match 1) (\<lambda>g. bind (py_int e g) (\<lambda>weeks.
          iso (add_days today (7 * weeks))))
      | None \<Rightarrow>
      (case search re_in_months text_lower of
        Some months_match \<Rightarrow>
          bind (group months_match 1) (\<lambda>g. bind (py_int e g) (\<lambda>months.
          let new_month = month today + months;
              new_year = year today + (new_month - 1) div 12;
              new_month = ((new_month - 1) mod 12) + 1
          in iso (replace today (Some new_year) (Some new_month) None)))
      | None \<Rightarrow>
      (case search re_numeric_date text_lower of
        Some date_match \<Rightarrow>
          bind (group date_match 1) (\<lambda>month.
          bind (group date_match 2) (\<lambda>day.
          bind (group date_match 3) (\<lambda>year.
          let year = (if length year = 2 then ''20'' @ year else year)
          in Inr (Some (year @ ''-'' @ zfill 2 month @ ''-'' @ zfill 2 day)))))
      | None \<Rightarrow>
      (case search re_month_name text_lower of
        Some month_match \<Rightarrow>
          bind (group month_match 1) (\<lambda>month_name.
          bind (group month_match 2) (\<lambda>day.
          bind (py_int e day) (\<lambda>day_num.
          let month_num = month_name_to_number month_name;
              year = year today;
              year = (if month_num < month today \<or>
                         (month_num = month today \<and> day_num < date.day today)
                      then year + 1 else year)
          in Inr (Some (dec year @ ''-'' @ dec02 month_num @ ''-'' @ dec02 day_num)))))
      | None \<Rightarrow> Inr None))))))))"

section \<open>Entities\<close>

text \<open>
  The loops over \<open>priority_patterns\<close> and \<open>status_patterns\<close>: the key of the first
  expression found in the text (searched with \<open>re.IGNORECASE\<close>), then \<open>break\<close>.
\<close>

fun first_key :: "(string \<times> regex) list \<Rightarrow> string \<Rightarrow> string option" where
  "first_key [] s = None"
| "first_key ((k, p) # ps) s = (if found (search_ic p s) then Some k else first_key ps s)"

definition extract_entities :: "env \<Rightarrow> string \<Rightarrow> error + command" where
  "extract_entities e user_input =
     (let entities = Map.empty;
          entities = (case first_key priority_patterns user_input of
                        Some priority \<Rightarrow> entities(''priority'' \<mapsto> PyStr priority)
                      | None \<Rightarrow> entities);
          entities = (case first_key status_patterns user_input of
                        Some status \<Rightarrow> entities(''status'' \<mapsto> PyStr status)
                      | None \<Rightarrow> entities)
      in bind (parse_due_date e user_input) (\<lambda>due_date.
         case due_date of
           Some d \<Rightarrow> if d \<noteq> [] then Inr (entities(''due_date'' \<mapsto> PyStr d)) else Inr entities
         | None \<Rightarrow> Inr entities))"

section \<open>Tags\<close>

definition category_keywords :: "(string \<times> string list) list" where
  "category_keywords =
     [(''work'', [''work'', ''job'', ''office'', ''meeting'', ''presentation'', ''client'',
        ''project'', ''deadline'', ''report'', ''email'', ''call'', ''conference'']),
      (''personal'', [''personal'', ''home'', ''family'', ''friend'', ''relationship'', ''life'']),
      (''shopping'', [''buy'', ''purchase'', ''shop'', ''grocery'', ''store'', ''market'', ''mall'',
        ''online'']),
      (''health'', [''health'', ''medical'', ''doctor'', ''dentist'', ''exercise'', ''gym'',
        ''workout'', ''fitness'', ''wellness'', ''appointment'']),
      (''finance'', [''money'', ''finance'', ''bank'', ''bill'', ''payment'', ''budget'',
        ''expense'', ''investment'', ''tax'', ''insurance'']),
      (''learning'', [''learn'', ''study'', ''course'', ''book'', ''read'', ''education'',
        ''training'', ''skill'', ''knowledge'', ''research'']),
      (''travel'', [''travel'', ''trip'', ''vacation'', ''flight'', ''hotel'', ''booking'',
        ''reservation'', ''destination'']),
      (''cleaning'', [''clean'', ''organize'', ''tidy'', ''declutter'', ''laundry'', ''dishes'',
        ''housework'']),
      (''cooking'', [''cook'', ''meal'', ''food'', ''recipe'', ''dinner'', ''lunch'',
        ''breakfast'', ''kitchen'']),
      (''entertainment'', [''movie'', ''game'', ''music'', ''party'', ''event'', ''fun'',
        ''entertainment'', ''hobby'']),
      (''urgent'', [''urgent'', ''asap'', ''emergency'', ''critical'', ''immediate'', ''rush'']),
      (''important'', [''important'', ''priority'', ''key'', ''essential'', ''vital'']),
      (''routine'', [''routine'', ''daily'', ''weekly'', ''monthly'', ''regular'', ''habit''])]"

definition specific_items :: "string list" where
  "specific_items =
     [''groceries'', ''milk'', ''bread'', ''eggs'', ''vegetables'', ''fruits'',
      ''meeting'', ''call'', ''email'', ''presentation'', ''report'',
      ''exercise'', ''gym'', ''workout'', ''running'', ''yoga'',
      ''doctor'', ''dentist'', ''appointment'', ''checkup'',
      ''bill'', ''payment'', ''rent'', ''mortgage'', ''insurance'',
      ''book'', ''reading'', ''study'', ''course'', ''class'',
      ''cleaning'', ''laundry'', ''dishes'', ''organizing'',
      ''cooking'', ''meal'', ''dinner'', ''lunch'', ''breakfast'']"

text \<open>\<open>_extract_implicit_tags\<close>; the source does not read its second argument either.\<close>

definition extract_implicit_tags :: "string \<Rightarrow> string \<Rightarrow> string list" where
  "extract_implicit_tags text title =
     map fst (filter (\<lambda>(category, keywords). any_in keywords text) category_keywords) @
     filter (contains text) specific_items"

definition extract_time_tags :: "string \<Rightarrow> string list" where
  "extract_time_tags text =
     map snd (filter (\<lambda>(p, tag). found (search p text)) time_tag_patterns)"

text \<open>The loop over \<open>explicit_tag_patterns\<close>: the tags of the first expression found.\<close>

fun explicit_tags :: "regex list \<Rightarrow> string \<Rightarrow> error + string list" where
  "explicit_tags [] s = Inr []"
| "explicit_tags (p # ps) s =
     (case search_ic p s of
        Some tag_match \<Rightarrow> bind (group tag_match 1) (\<lambda>g. Inr (map strip (split_on (CHR '','') g)))
      | None \<Rightarrow> explicit_tags ps s)"

definition extract_tags_from_text :: "env \<Rightarrow> string \<Rightarrow> string \<Rightarrow> error + string list" where
  "extract_tags_from_text e user_input title =
     (let user_input_lower = lower user_input in
      bind (explicit_tags explicit_tag_patterns user_input) (\<lambda>tags.
      let tags = tags @ extract_implicit_tags user_input_lower (lower title);
          tags = tags @ extract_time_tags user_input_lower
      in Inr (set_order e (map strip (filter (\<lambda>tag. strip tag \<noteq> []) tags)))))"

section \<open>Command details\<close>

text \<open>The loop over \<open>desc_patterns\<close>: the stripped group of the first expression found.\<close>

fun first_description :: "regex list \<Rightarrow> string \<Rightarrow> error + string" where
  "first_description [] s = Inr []"
| "first_description (p # ps) s =
     (case search_ic p s of
        Some desc_match \<Rightarrow> bind (group desc_match 1) (\<lambda>g. Inr (strip g))
      | None \<Rightarrow> first_description ps s)"

definition extract_add_task_details :: "env \<Rightarrow> string \<Rightarrow> string list \<Rightarrow> error + command" where
  "extract_add_task_details e user_input m =
     bind (if m \<noteq> [] then group m 1 else Inr []) (\<lambda>title.
     bind (first_description desc_patterns user_input) (\<lambda>description.
     bind (extract_tags_from_text e user_input title) (\<lambda>tags.
     Inr [''title'' \<mapsto> PyStr title, ''description'' \<mapsto> PyStr description,
          ''tags'' \<mapsto> PyList tags])))"

definition extract_search_details :: "string \<Rightarrow> string list \<Rightarrow> error + command" where
  "extract_search_details user_input m =
     bind (if m \<noteq> [] then group m 1 else Inr []) (\<lambda>query.
     Inr [''query'' \<mapsto> PyStr query])"

definition extract_update_details :: "env \<Rightarrow> string \<Rightarrow> string list \<Rightarrow> error + command" where
  "extract_update_details e user_input m =
     bind (if m \<noteq> [] then bind (group m 1) (\<lambda>g. bind (py_int e g) (\<lambda>n. Inr (PyInt n)))
           else Inr PyNone) (\<lambda>task_id.
     bind (if 1 < length m then group m 2 else Inr []) (\<lambda>new_value.
     let field =
           (if any_in [''priority'', ''important''] (lower user_input) then ''priority''
            else if any_in [''title'', ''name''] (lower user_input) then ''title''
            else if any_in [''description'', ''desc''] (lower user_input) then ''description''
            else ''status'');
         new_value =
           (if field = ''status'' then
              (if any_in [''complete'', ''done'', ''finish''] (lower new_value) then ''completed''
               else if any_in [''progress'', ''working''] (lower new_value) then ''in_progress''
               else ''pending'')
            else if field = ''priority'' then
              (if any_in [''high'', ''urgent'', ''important''] (lower new_value) then ''high''
               else if any_in [''low'', ''minor''] (lower new_value) then ''low''
               else ''medium'')
            else new_value)
     in Inr [''task_id'' \<mapsto> task_id, ''field'' \<mapsto> PyStr field, ''value'' \<mapsto> PyStr new_value]))"

definition extract_delete_details :: "env \<Rightarrow> string \<Rightarrow> string list \<Rightarrow> error + command" where
  "extract_delete_details e user_input m =
     bind (if m \<noteq> [] then bind (group m 1) (\<lambda>g. bind (py_int e g) (\<lambda>n. Inr (PyInt n)))
           else Inr PyNone) (\<lambda>task_id.
     Inr [''task_id'' \<mapsto> task_id])"

text \<open>\<open>_extract_command_details\<close>: \<open>result.update(d)\<close> is \<open>result ++ d\<close>.\<close>

definition extract_command_details :: "env \<Rightarrow> string \<Rightarrow> string \<Rightarrow> string list \<Rightarrow> error + command" where
  "extract_command_details e command_type user_input m =
     (let result = [''command_type'' \<mapsto> PyStr command_type, ''confidence'' \<mapsto> PyFloat (9 / 10),
                    ''raw_input'' \<mapsto> PyStr user_input]
      in bind (extract_entities e user_input) (\<lambda>entities.
         let result = result ++ entities in
         if command_type = ''add_task''
           then bind (extract_add_task_details e user_input m) (\<lambda>d. Inr (result ++ d))
         else if command_type = ''search_tasks''
           then bind (extract_search_details user_input m) (\<lambda>d. Inr (result ++ d))
         else if command_type = ''update_task''
           then bind (extract_update_details e user_input m) (\<lambda>d. Inr (result ++ d))
         else if command_type = ''delete_task''
           then bind (extract_delete_details e user_input m) (\<lambda>d. Inr (result ++ d))
         else Inr result))"

section \<open>Inference\<close>

definition extract_title_from_text :: "string \<Rightarrow> error + string" where
  "extract_title_from_text text =
     (case search re_quoted text of
        Some quote_match \<Rightarrow> group quote_match 1
      | None \<Rightarrow>
          (let words = split_ws text;
               command_words = [''add'', ''create'', ''new'', ''task'', ''a'', ''an''];
               meaningful_words = filter (\<lambda>word. lower word \<notin> set command_words) words
           in if meaningful_words \<noteq> [] then Inr (join '' '' (take 3 meaningful_words))
              else Inr text))"

definition extract_query_from_text :: "string \<Rightarrow> string" where
  "extract_query_from_text text =
     (let command_words = [''find'', ''search'', ''look'', ''for'', ''show'', ''me'', ''tasks'',
                           ''about''];
          words = filter (\<lambda>word. lower word \<notin> set command_words) (split_ws text)
      in join '' '' words)"

definition infer_command :: "string \<Rightarrow> error + command" where
  "infer_command user_input =
     (let user_input_lower = lower user_input in
      if any_in [''add'', ''create'', ''new'', ''make''] user_input_lower then
        bind (extract_title_from_text user_input) (\<lambda>title.
        Inr [''command_type'' \<mapsto> PyStr ''add_task'', ''confidence'' \<mapsto> PyFloat (7 / 10),
             ''raw_input'' \<mapsto> PyStr user_input, ''title'' \<mapsto> PyStr title])
      else if any_in [''find'', ''search'', ''look'', ''show''] user_input_lower then
        Inr [''command_type'' \<mapsto> PyStr ''search_tasks'', ''confidence'' \<mapsto> PyFloat (7 / 10),
             ''raw_input'' \<mapsto> PyStr user_input,
             ''query'' \<mapsto> PyStr (extract_query_from_text user_input)]
      else if any_in [''list'', ''all'', ''tasks''] user_input_lower then
        Inr [''command_type'' \<mapsto> PyStr ''list_tasks'', ''confidence'' \<mapsto> PyFloat (8 / 10),
             ''raw_input'' \<mapsto> PyStr user_input]
      else if any_in [''stats'', ''statistics'', ''summary''] user_input_lower then
        Inr [''command_type'' \<mapsto> PyStr ''show_stats'', ''confidence'' \<mapsto> PyFloat (8 / 10),
             ''raw_input'' \<mapsto> PyStr user_input]
      else
        Inr [''command_type'' \<mapsto> PyStr ''unknown'', ''confidence'' \<mapsto> PyFloat 0,
             ''raw_input'' \<mapsto> PyStr user_input,
             ''error'' \<mapsto> PyStr ''Could not understand command''])"

section \<open>The entry point\<close>

text \<open>
  The two nested loops of \<open>parse_command\<close>: the patterns of one category in order,
  the categories in order, stopping at the first pattern found in the text. The result
  is the category, the index of the pattern in its list, and the match.
\<close>

fun first_pattern :: "regex list \<Rightarrow> nat \<Rightarrow> string \<Rightarrow> (nat \<times> string list) option" where
  "first_pattern [] i s = None"
| "first_pattern (p # ps) i s =
     (case search_ic p s of
        Some m \<Rightarrow> Some (i, m)
      | None \<Rightarrow> first_pattern ps (Suc i) s)"

fun first_command :: "(string \<times> regex list) list \<Rightarrow> string \<Rightarrow> (string \<times> nat \<times> string list) option" where
  "first_command [] s = None"
| "first_command ((command_type, patterns) # cs) s =
     (case first_pattern patterns 0 s of
        Some (i, m) \<Rightarrow> Some (command_type, i, m)
      | None \<Rightarrow> first_command cs s)"

definition parse_command :: "env \<Rightarrow> string \<Rightarrow> error + command" where
  "parse_command e user_input =
     (let user_input = strip user_input;
          original_input = user_input;
          user_input_lower = lower user_input
      in case first_command command_patterns user_input_lower of
           Some (command_type, i, m) \<Rightarrow> extract_command_details e command_type original_input m
         | None \<Rightarrow> infer_command original_input)"

section \<open>Notions used in the statements\<close>

text \<open>Reading one key of the dictionary a call returned; an exception stays what it is.\<close>

definition lookup :: "error + command \<Rightarrow> string \<Rightarrow> error + pyval option" where
  "lookup r k = (case r of Inl err \<Rightarrow> Inl err | Inr c \<Rightarrow> Inr (c k))"

text \<open>
  An environment for the examples: the anchor date given, CPython's default limit of
  4300 digits, and a set listed in the order of first insertion.
\<close>

definition example_env :: "date \<Rightarrow> env" where
  "example_env today = \<lparr>now = today, set_order = remdups, int_max_str_digits = 4300\<rparr>"

text \<open>
  Every pattern rule that is found in a text, as the pair of its category and its index
  in the category's list, in the declared order of the categories and of the patterns.
\<close>

definition matching_rules :: "(string \<times> regex list) list \<Rightarrow> string \<Rightarrow> (string \<times> nat) list" where
  "matching_rules cs t =
     concat (map (\<lambda>(command_type, patterns).
        map (\<lambda>i. (command_type, i))
          (filter (\<lambda>i. found (search_ic (patterns ! i) t)) [0 ..< length patterns])) cs)"

text \<open>
  The number of capturing groups of an expression (a group never stands inside an
  optional part or an alternative of the processor's patterns, which \<open>flat\<close> says).
\<close>

fun ngroups :: "regex \<Rightarrow> nat" where
  "ngroups (Lit s) = 0"
| "ngroups (Cls c) = 0"
| "ngroups (Rep c lo hi) = 0"
| "ngroups (Opt e) = 0"
| "ngroups (Alt es) = 0"
| "ngroups (Seq es) = sum_list (map ngroups es)"
| "ngroups (Grp e) = Suc (ngroups e)"
| "ngroups Bnd = 0"

fun groupless :: "regex \<Rightarrow> bool" where
  "groupless (Lit s) = True"
| "groupless (Cls c) = True"
| "groupless (Rep c lo hi) = True"
| "groupless (Opt e) = groupless e"
| "groupless (Alt es) = list_all groupless es"
| "groupless (Seq es) = list_all groupless es"
| "groupless (Grp e) = False"
| "groupless Bnd = True"

fun flat :: "regex \<Rightarrow> bool" where
  "flat (Lit s) = True"
| "flat (Cls c) = True"
| "flat (Rep c lo hi) = True"
| "flat (Opt e) = groupless e"
| "flat (Alt es) = list_all groupless es"
| "flat (Seq es) = list_all flat es"
| "flat (Grp e) = flat e"
| "flat Bnd = True"

text \<open>The words by which \<open>_extract_update_details\<close> recognizes a field other than the status.\<close>

definition field_keywords :: "string list" where
  "field_keywords = [''priority'', ''important'', ''title'', ''name'', ''description'', ''desc'']"

text \<open>The rules of \<open>_parse_due_date\<close> that stand before the rule for "this <weekday>".\<close>

definition earlier_due_rules :: "regex list" where
  "earlier_due_rules =
     [re_today, re_tomorrow, re_yesterday, re_this_morning, re_this_afternoon, re_this_evening,
      re_tonight, re_this_week, re_next_week, re_last_week, re_this_month, re_next_month,
      re_last_month, re_end_of_month, re_end_of_week, re_end_of_year, re_next_weekday]"





section \<open>Results of the pattern path\<close>

lemma bind_Inr: "bind r f = Inr v \<longleftrightarrow> (\<exists>x. r = Inr x \<and> f x = Inr v)"
  by (cases r) (auto simp: bind_def)

lemma bind_InrE:
  assumes "bind r f = Inr v"
  obtains x where "r = Inr x" "f x = Inr v"
  using assms by (auto simp: bind_Inr)

lemma entities_dom:
  assumes "extract_entities e u = Inr en"
  shows "dom en \<subseteq> {''priority'', ''status'', ''due_date''}"
  using assms unfolding extract_entities_def Let_def
  by (elim bind_InrE) (auto split: option.splits if_splits)

lemma add_dom:
  assumes "extract_add_task_details e u m = Inr d"
  shows "dom d = {''title'', ''description'', ''tags''}"
  using assms unfolding extract_add_task_details_def
  by (elim bind_InrE) (simp, hypsubst, auto)

lemma search_dom:
  assumes "extract_search_details u m = Inr d"
  shows "dom d = {''query''}"
  using assms unfolding extract_search_details_def
  by (elim bind_InrE) (simp, hypsubst, auto)

lemma update_dom:
  assumes "extract_update_details e u m = Inr d"
  shows "dom d = {''task_id'', ''field'', ''value''}"
  using assms unfolding extract_update_details_def Let_def
  by (elim bind_InrE) (simp, hypsubst, auto)

lemma delete_dom:
  assumes "extract_delete_details e u m = Inr d"
  shows "dom d = {''task_id''}"
  using assms unfolding extract_delete_details_def
  by (elim bind_InrE) (simp, hypsubst, auto)

lemma map_add_outside: "k \<notin> dom b \<Longrightarrow> (a ++ b) k = a k"
  by (simp add: map_add_def domIff split: option.splits)

text \<open>
  What \<open>_extract_command_details\<close> returns: the three fixed keys, updated with the
  entities, updated with the details of the category.
\<close>

lemma details_shape:
  assumes "extract_command_details e ct u m = Inr c"
  obtains en d where "extract_entities e u = Inr en"
    "c = [''command_type'' \<mapsto> PyStr ct, ''confidence'' \<mapsto> PyFloat (9 / 10),
          ''raw_input'' \<mapsto> PyStr u] ++ en ++ d"
    "dom d \<subseteq> {''title'', ''description'', ''tags'', ''query'', ''task_id'', ''field'', ''value''}"
    "ct = ''add_task'' \<Longrightarrow> extract_add_task_details e u m = Inr d"
    "ct = ''search_tasks'' \<Longrightarrow> extract_search_details u m = Inr d"
    "ct = ''update_task'' \<Longrightarrow> extract_update_details e u m = Inr d"
    "ct = ''delete_task'' \<Longrightarrow> extract_delete_details e u m = Inr d"
proof -
  let ?base = "[''command_type'' \<mapsto> PyStr ct, ''confidence'' \<mapsto> PyFloat (9 / 10),
          ''raw_input'' \<mapsto> PyStr u]"
  from assms obtain en where en: "extract_entities e u = Inr en" and
    r: "(if ct = ''add_task''
           then bind (extract_add_task_details e u m) (\<lambda>d. Inr (?base ++ en ++ d))
         else if ct = ''search_tasks''
           then bind (extract_search_details u m) (\<lambda>d. Inr (?base ++ en ++ d))
         else if ct = ''update_task''
           then bind (extract_update_details e u m) (\<lambda>d. Inr (?base ++ en ++ d))
         else if ct = ''delete_task''
           then bind (extract_delete_details e u m) (\<lambda>d. Inr (?base ++ en ++ d))
         else Inr (?base ++ en)) = Inr c"
    unfolding extract_command_details_def Let_def by (elim bind_InrE) blast
  consider (a) "ct = ''add_task''" | (s) "ct = ''search_tasks''" | (u) "ct = ''update_task''"
    | (d) "ct = ''delete_task''"
    | (o) "ct \<noteq> ''add_task''" "ct \<noteq> ''search_tasks''" "ct \<noteq> ''update_task''"
        "ct \<noteq> ''delete_task''"
    by blast
  then show ?thesis
  proof cases
    case a
    with r obtain d where d: "extract_add_task_details e u m = Inr d" "c = ?base ++ en ++ d"
      by (auto elim!: bind_InrE)
    show ?thesis using that[OF en d(2)] add_dom[OF d(1)] d(1) a by simp
  next
    case s
    with r obtain d where d: "extract_search_details u m = Inr d" "c = ?base ++ en ++ d"
      by (auto elim!: bind_InrE)
    show ?thesis using that[OF en d(2)] search_dom[OF d(1)] d(1) s by simp
  next
    case u
    with r obtain d where d: "extract_update_details e u m = Inr d" "c = ?base ++ en ++ d"
      by (auto elim!: bind_InrE)
    show ?thesis using that[OF en d(2)] update_dom[OF d(1)] d(1) u by simp
  next
    case d
    with r obtain d' where d': "extract_delete_details e u m = Inr d'" "c = ?base ++ en ++ d'"
      by (auto elim!: bind_InrE)
    show ?thesis using that[OF en d'(2)] delete_dom[OF d'(1)] d'(1) d by simp
  next
    case o
    with r have "c = ?base ++ en ++ Map.empty" by simp
    from that[OF en this] o show ?thesis by simp
  qed
qed

lemma base_fields:
  assumes "extract_command_details e ct u m = Inr c"
  shows "c ''command_type'' = Some (PyStr ct)" "c ''confidence'' = Some (PyFloat (9 / 10))"
    "c ''raw_input'' = Some (PyStr u)"
proof -
  from assms obtain en d where
    en: "extract_entities e u = Inr en" and
    c: "c = [''command_type'' \<mapsto> PyStr ct, ''confidence'' \<mapsto> PyFloat (9 / 10),
             ''raw_input'' \<mapsto> PyStr u] ++ en ++ d" and
    d: "dom d \<subseteq> {''title'', ''description'', ''tags'', ''query'', ''task_id'', ''field'',
                  ''value''}"
    by (rule details_shape)
  have dd: "''command_type'' \<notin> dom d" "''confidence'' \<notin> dom d" "''raw_input'' \<notin> dom d"
    using d by auto
  have de: "''command_type'' \<notin> dom en" "''confidence'' \<notin> dom en" "''raw_input'' \<notin> dom en"
    using entities_dom[OF en] by auto
  show "c ''command_type'' = Some (PyStr ct)" "c ''confidence'' = Some (PyFloat (9 / 10))"
    "c ''raw_input'' = Some (PyStr u)"
    using dd de by (simp_all add: c map_add_outside)
qed

section \<open>The first rule found decides\<close>

lemma first_pattern_Some:
  "first_pattern ps k t = Some (i, m) \<Longrightarrow>
     k \<le> i \<and> i - k < length ps \<and> search_ic (ps ! (i - k)) t = Some m \<and>
     (\<forall>j < i - k. search_ic (ps ! j) t = None)"
proof (induction ps arbitrary: k)
  case Nil
  then show ?case by simp
next
  case (Cons p ps)
  show ?case
  proof (cases "search_ic p t")
    case None
    with Cons.prems have "first_pattern ps (Suc k) t = Some (i, m)" by simp
    from Cons.IH[OF this] have ih: "Suc k \<le> i" "i - Suc k < length ps"
      "search_ic (ps ! (i - Suc k)) t = Some m" "\<forall>j < i - Suc k. search_ic (ps ! j) t = None"
      by auto
    have eq: "i - k = Suc (i - Suc k)" using ih(1) by simp
    show ?thesis
      using ih None unfolding eq by (auto simp: less_Suc_eq_0_disj)
  next
    case (Some a)
    with Cons.prems show ?thesis by simp
  qed
qed

lemma first_pattern_None:
  "first_pattern ps k t = None \<longleftrightarrow> (\<forall>p \<in> set ps. search_ic p t = None)"
  by (induction ps arbitrary: k) (auto split: option.splits)

lemma first_pattern_prefix:
  "i < length ps \<Longrightarrow> search_ic (ps ! i) t = Some m \<Longrightarrow> \<forall>j < i. search_ic (ps ! j) t = None \<Longrightarrow>
     first_pattern (take (Suc i) ps @ ps') k t = Some (k + i, m)"
proof (induction ps arbitrary: i k)
  case Nil
  then show ?case by simp
next
  case (Cons p ps)
  show ?case
  proof (cases i)
    case 0
    with Cons.prems show ?thesis by simp
  next
    case (Suc i')
    from Cons.prems Suc have p: "search_ic p t = None" by auto
    have "first_pattern (take (Suc i') ps @ ps') (Suc k) t = Some (Suc k + i', m)"
      using Cons.prems Suc by (intro Cons.IH) auto
    with p Suc show ?thesis by simp
  qed
qed

lemma first_command_skip:
  "\<forall>(c, qs) \<in> set cs1. \<forall>p \<in> set qs. search_ic p t = None \<Longrightarrow>
     first_command (cs1 @ cs) t = first_command cs t"
proof (induction cs1)
  case Nil
  then show ?case by simp
next
  case (Cons a cs1)
  obtain c qs where a: "a = (c, qs)" by (cases a)
  from Cons.prems a have "first_pattern qs 0 t = None" by (simp add: first_pattern_None)
  with Cons a show ?case by simp
qed

lemma first_command_Some:
  "first_command cs t = Some (ct, i, m) \<Longrightarrow>
     \<exists>cs1 ps cs2. cs = cs1 @ (ct, ps) # cs2 \<and>
       (\<forall>(c, qs) \<in> set cs1. \<forall>p \<in> set qs. search_ic p t = None) \<and>
       i < length ps \<and> search_ic (ps ! i) t = Some m \<and> (\<forall>j < i. search_ic (ps ! j) t = None)"
proof (induction cs)
  case Nil
  then show ?case by simp
next
  case (Cons a cs)
  obtain c qs where a: "a = (c, qs)" by (cases a)
  show ?case
  proof (cases "first_pattern qs 0 t")
    case None
    with Cons.prems a have "first_command cs t = Some (ct, i, m)" by simp
    from Cons.IH[OF this] obtain cs1 ps cs2 where
      h: "cs = cs1 @ (ct, ps) # cs2" "\<forall>(c, qs) \<in> set cs1. \<forall>p \<in> set qs. search_ic p t = None"
         "i < length ps" "search_ic (ps ! i) t = Some m" "\<forall>j < i. search_ic (ps ! j) t = None"
      by blast
    have "a # cs = (a # cs1) @ (ct, ps) # cs2" using h(1) by simp
    moreover have "\<forall>(c, qs) \<in> set (a # cs1). \<forall>p \<in> set qs. search_ic p t = None"
      using h(2) None a by (auto simp: first_pattern_None)
    ultimately show ?thesis using h(3,4,5) by blast
  next
    case (Some r)
    obtain i' m' where r: "r = (i', m')" by (cases r)
    from Cons.prems a Some r have eq: "ct = c" "i = i'" "m = m'" by auto
    from first_pattern_Some[of qs 0 t i' m'] Some r
    have "i' < length qs" "search_ic (qs ! i') t = Some m'" "\<forall>j < i'. search_ic (qs ! j) t = None"
      by auto
    then show ?thesis using a eq by (intro exI[of _ "[]"] exI[of _ qs] exI[of _ cs]) auto
  qed
qed

lemma first_command_None:
  "first_command cs t = None \<longleftrightarrow> (\<forall>(c, qs) \<in> set cs. \<forall>p \<in> set qs. search_ic p t = None)"
proof (induction cs)
  case Nil
  then show ?case by simp
next
  case (Cons a cs)
  obtain c qs where a: "a = (c, qs)" by (cases a)
  show ?case
  proof (cases "first_pattern qs 0 t")
    case None
    then have "\<forall>p \<in> set qs. search_ic p t = None" by (simp add: first_pattern_None)
    with None Cons a show ?thesis by simp
  next
    case (Some r)
    then have "\<not> (\<forall>p \<in> set qs. search_ic p t = None)"
      using first_pattern_None[of qs 0 t] by simp
    with Some a show ?thesis by (auto split: prod.splits)
  qed
qed

lemma filter_first:
  assumes "i < n" "P i" "\<forall>j < i. \<not> P j"
  shows "\<exists>rest. filter P [0 ..< n] = i # rest"
proof -
  have "[0 ..< n] = [0 ..< i] @ i # [Suc i ..< n]"
    using assms(1) by (metis le_add1 less_imp_add_positive plus_nat.add_0 upt_add_eq_append upt_conv_Cons)
  moreover have "filter P [0 ..< i] = []" using assms(3) by (auto simp: filter_empty_conv)
  ultimately show ?thesis using assms(2) by simp
qed

lemma matching_rules_skip:
  "\<forall>(c, qs) \<in> set cs1. \<forall>p \<in> set qs. search_ic p t = None \<Longrightarrow> matching_rules cs1 t = []"
  by (induction cs1) (auto simp: matching_rules_def found_def filter_empty_conv)

lemma matching_rules_append:
  "matching_rules (cs1 @ cs2) t = matching_rules cs1 t @ matching_rules cs2 t"
  by (simp add: matching_rules_def)

lemma matching_rules_hd:
  assumes "first_command cs t = Some (ct, i, m)"
  shows "\<exists>rest. matching_rules cs t = (ct, i) # rest"
proof -
  from first_command_Some[OF assms] obtain cs1 ps cs2 where
    h: "cs = cs1 @ (ct, ps) # cs2" "\<forall>(c, qs) \<in> set cs1. \<forall>p \<in> set qs. search_ic p t = None"
       "i < length ps" "search_ic (ps ! i) t = Some m" "\<forall>j < i. search_ic (ps ! j) t = None"
    by blast
  from filter_first[of i "length ps" "\<lambda>i. found (search_ic (ps ! i) t)"] h(3,4,5)
  obtain rest where "filter (\<lambda>i. found (search_ic (ps ! i) t)) [0 ..< length ps] = i # rest"
    by (auto simp: found_def)
  then have "\<exists>rest. matching_rules ((ct, ps) # cs2) t = (ct, i) # rest"
    by (simp add: matching_rules_def)
  then show ?thesis
    using matching_rules_skip[OF h(2)] by (simp add: h(1) matching_rules_append)
qed

lemma matching_rules_Nil:
  "matching_rules cs t = [] \<longleftrightarrow> first_command cs t = None"
proof
  assume e: "matching_rules cs t = []"
  show "first_command cs t = None"
  proof (cases "first_command cs t")
    case None
    then show ?thesis .
  next
    case (Some r)
    obtain ct i m where "r = (ct, i, m)" by (cases r)
    with Some matching_rules_hd[of cs t ct i m] e show ?thesis by simp
  qed
next
  assume "first_command cs t = None"
  then have "\<forall>(c, qs) \<in> set cs. \<forall>p \<in> set qs. search_ic p t = None"
    by (simp add: first_command_None)
  then show "matching_rules cs t = []" by (rule matching_rules_skip)
qed

section \<open>The groups of a match\<close>

lemma advance_groups: "snd (snd (advance p r g k)) = g"
  by (simp add: advance_def)

lemma mt_groupless:
  "groupless e \<Longrightarrow> st' \<in> set (mt ic e st) \<Longrightarrow> snd (snd st') = snd (snd st)"
proof (induction ic e st arbitrary: st' rule: mt.induct)
  case (1 ic s p r g)
  then show ?case by (auto split: option.splits)
next
  case (2 ic c p r g)
  then show ?case by (auto split: list.splits if_splits)
next
  case (3 ic c lo hi p r g)
  then show ?case by (auto simp: Let_def advance_groups)
next
  case (4 ic e st)
  then show ?case by (cases st') auto
next
  case (5 ic es st)
  then show ?case by (cases st') (auto simp: list_all_iff)
next
  case (6 ic st)
  then show ?case by simp
next
  case (7 ic e es st)
  from 7(4) obtain x where x: "x \<in> set (mt ic e st)" "st' \<in> set (mt ic (Seq es) x)" by auto
  from 7(3) have g: "groupless e" "groupless (Seq es)" by auto
  from 7(1)[OF g(1) x(1)] 7(2)[OF x(1) g(2) x(2)] show ?case by simp
next
  case (8 ic e p r g)
  then show ?case by simp
next
  case (9 ic p r g)
  then show ?case by (auto split: if_splits)
qed

lemma groupless_flat: "groupless e \<Longrightarrow> flat e"
  by (induction e) (auto simp: list_all_iff)

lemma groupless_ngroups: "groupless e \<Longrightarrow> ngroups e = 0"
  by (induction e) (auto simp: list_all_iff)

lemma mt_ngroups:
  "flat e \<Longrightarrow> st' \<in> set (mt ic e st) \<Longrightarrow>
     length (snd (snd st')) = length (snd (snd st)) + ngroups e"
proof (induction ic e st arbitrary: st' rule: mt.induct)
  case (1 ic s p r g)
  then show ?case by (auto split: option.splits)
next
  case (2 ic c p r g)
  then show ?case by (auto split: list.splits if_splits)
next
  case (3 ic c lo hi p r g)
  then show ?case by (auto simp: Let_def advance_groups)
next
  case (4 ic e st)
  then show ?case using mt_groupless[of e st' ic st] by auto
next
  case (5 ic es st)
  then show ?case using mt_groupless[of _ st' ic st] by (auto simp: list_all_iff)
next
  case (6 ic st)
  then show ?case by simp
next
  case (7 ic e es st)
  from 7(4) obtain x where x: "x \<in> set (mt ic e st)" "st' \<in> set (mt ic (Seq es) x)" by auto
  from 7(3) have g: "flat e" "flat (Seq es)" by auto
  from 7(1)[OF g(1) x(1)] 7(2)[OF x(1) g(2) x(2)] show ?case by simp
next
  case (8 ic e p r g)
  from 8(3) obtain p' r' g' where
    x: "(p', r', g') \<in> set (mt ic e (p, r, g))" "st' = (p', r', g' @ [take (length r - length r') r])"
    by auto
  from 8(1)[OF _ x(1)] 8(2) have "length g' = length g + ngroups e" by simp
  with x(2) show ?case by simp
next
  case (9 ic p r g)
  then show ?case by (auto split: if_splits)
qed

lemma search_from_ngroups:
  "flat e \<Longrightarrow> search_from ic e p r = Some m \<Longrightarrow> length m = ngroups e"
proof (induction r arbitrary: p)
  case Nil
  show ?case
  proof (cases "mt ic e (p, [], [])")
    case Nil
    with Nil.prems show ?thesis by simp
  next
    case (Cons st sts)
    obtain p' r' g' where st: "st = (p', r', g')" by (cases st)
    from Cons st Nil.prems(2) have "m = g'" by simp
    moreover have "st \<in> set (mt ic e (p, [], []))" using Cons by simp
    from mt_ngroups[OF Nil.prems(1) this] st have "length g' = ngroups e" by simp
    ultimately show ?thesis by simp
  qed
next
  case (Cons x xs)
  show ?case
  proof (cases "mt ic e (p, x # xs, [])")
    case Nil
    with Cons show ?thesis by simp
  next
    case (Cons st sts)
    obtain p' r' g' where st: "st = (p', r', g')" by (cases st)
    from Cons st Cons.prems(2) have "m = g'" by simp
    moreover have "st \<in> set (mt ic e (p, x # xs, []))" using Cons by simp
    from mt_ngroups[OF Cons.prems(1) this] st have "length g' = ngroups e" by simp
    ultimately show ?thesis by simp
  qed
qed

lemma search_ic_ngroups: "flat e \<Longrightarrow> search_ic e t = Some m \<Longrightarrow> length m = ngroups e"
  unfolding search_ic_def by (rule search_from_ngroups)

lemma update_patterns_flat: "list_all flat update_task_patterns"
  by (simp add: update_task_patterns_def)

lemma update_patterns_single_group:
  "filter (\<lambda>i. ngroups (update_task_patterns ! i) = 1) [0 ..< length update_task_patterns] = [5, 6]"
  by code_simp

lemma command_patterns_update:
  "command_patterns = cs1 @ (''update_task'', ps) # cs2 \<Longrightarrow> ps = update_task_patterns"
proof -
  assume a: "command_patterns = cs1 @ (''update_task'', ps) # cs2"
  have "(''update_task'', ps) \<in> set (cs1 @ (''update_task'', ps) # cs2)" by simp
  then have "(''update_task'', ps) \<in> set command_patterns" by (simp only: a)
  then show ?thesis by (simp add: command_patterns_def)
qed


section \<open>The details of an update\<close>

lemma any_in_field_keywords:
  "any_in field_keywords s \<longleftrightarrow>
     any_in [''priority'', ''important''] s \<or> any_in [''title'', ''name''] s \<or>
     any_in [''description'', ''desc''] s"
  by (auto simp: any_in_def field_keywords_def)

lemma group_nth: "1 \<le> k \<Longrightarrow> k \<le> length m \<Longrightarrow> group m k = Inr (m ! (k - 1))"
  by (simp add: group_def)

lemma py_int_Inr: "py_int e g = Inr n \<Longrightarrow> n = digits_to_int g"
  by (auto simp: py_int_def split: if_splits)

text \<open>The details of an update whose text names no field: the field is the status.\<close>

lemma update_status_details:
  assumes d: "extract_update_details e u m = Inr d"
    and nokw: "\<not> any_in field_keywords (lower u)"
  shows "d ''field'' = Some (PyStr ''status'')"
    and "m \<noteq> [] \<Longrightarrow> d ''task_id'' = Some (PyInt (digits_to_int (m ! 0)))"
    and "1 < length m \<Longrightarrow> any_in [''complete'', ''done'', ''finish''] (lower (m ! 1)) \<Longrightarrow>
           d ''value'' = Some (PyStr ''completed'')"
    and "length m \<le> 1 \<Longrightarrow> d ''value'' = Some (PyStr ''pending'')"
proof -
  from nokw have k: "\<not> any_in [''priority'', ''important''] (lower u)"
    "\<not> any_in [''title'', ''name''] (lower u)" "\<not> any_in [''description'', ''desc''] (lower u)"
    by (simp_all add: any_in_field_keywords)
  have e1: "\<not> any_in [''complete'', ''done'', ''finish''] (lower [])"
    and e2: "\<not> any_in [''progress'', ''working''] (lower [])"
    by (simp_all add: any_in_def lower_def)
  from d obtain tid nv where
    tid: "(if m \<noteq> [] then bind (group m 1) (\<lambda>g. bind (py_int e g) (\<lambda>n. Inr (PyInt n)))
          else Inr PyNone) = Inr tid" and
    nv: "(if 1 < length m then group m 2 else Inr []) = Inr nv" and
    dd: "d = [''task_id'' \<mapsto> tid, ''field'' \<mapsto> PyStr ''status'',
             ''value'' \<mapsto> PyStr
               (if any_in [''complete'', ''done'', ''finish''] (lower nv) then ''completed''
                else if any_in [''progress'', ''working''] (lower nv) then ''in_progress''
                else ''pending'')]"
    unfolding extract_update_details_def Let_def
    by (elim bind_InrE) (simp add: k)
  show "d ''field'' = Some (PyStr ''status'')" by (simp add: dd)
  show "d ''task_id'' = Some (PyInt (digits_to_int (m ! 0)))" if "m \<noteq> []"
  proof -
    from that have "1 \<le> length m" by (cases m) auto
    with tid that obtain n where "py_int e (m ! 0) = Inr n" "tid = PyInt n"
      by (auto simp: group_nth elim!: bind_InrE)
    then show ?thesis using py_int_Inr by (simp add: dd)
  qed
  show "d ''value'' = Some (PyStr ''completed'')"
    if "1 < length m" "any_in [''complete'', ''done'', ''finish''] (lower (m ! 1))"
  proof -
    from that(1) nv have "nv = m ! 1" by (simp add: group_def)
    with that(2) show ?thesis by (simp add: dd)
  qed
  show "d ''value'' = Some (PyStr ''pending'')" if "length m \<le> 1"
  proof -
    from that nv have "nv = []" by simp
    then show ?thesis using e1 e2 by (simp add: dd)
  qed
qed

text \<open>The keys of the details override nothing else, and nothing overrides them.\<close>

lemma update_command_fields:
  assumes "extract_command_details e ''update_task'' u m = Inr c"
  obtains d where "extract_update_details e u m = Inr d"
    "c ''task_id'' = d ''task_id''" "c ''field'' = d ''field''" "c ''value'' = d ''value''"
proof -
  from assms obtain en d where
    c: "c = [''command_type'' \<mapsto> PyStr ''update_task'', ''confidence'' \<mapsto> PyFloat (9 / 10),
             ''raw_input'' \<mapsto> PyStr u] ++ en ++ d" and
    d: "extract_update_details e u m = Inr d"
    by (rule details_shape) simp
  from update_dom[OF d] have "''task_id'' \<in> dom d" "''field'' \<in> dom d" "''value'' \<in> dom d"
    by simp_all
  then have "c ''task_id'' = d ''task_id''" "c ''field'' = d ''field''" "c ''value'' = d ''value''"
    by (auto simp: c map_add_def split: option.splits)
  with d show ?thesis by (rule that)
qed

section \<open>Calendar arithmetic\<close>

lemma days_before_month_Suc:
  "1 \<le> m \<Longrightarrow> days_before_month y (m + 1) = days_before_month y m + days_in_month y m"
proof -
  assume "1 \<le> m"
  then have "[1 .. m] = [1 .. m - 1] @ [m]" by (simp add: upto_rec2)
  then show ?thesis by (simp add: days_before_month_def)
qed

lemma days_before_month_1: "days_before_month y 1 = 0"
  by (simp add: days_before_month_def)

lemma upto_1_11: "[1 .. 11] = [1, 2, 3, 4, 5, 6, 7, 8, 9, 10, 11 :: int]"
  by code_simp

lemma days_before_month_12:
  "days_before_month y 12 = (if is_leap y then 335 else 334)"
  by (simp add: days_before_month_def days_in_month_def upto_1_11)

lemma div_step:
  assumes "0 < (n::int)"
  shows "y div n = (y - 1) div n + (if y mod n = 0 then 1 else 0)"
proof (cases "y mod n = 0")
  case True
  have "y = n * (y div n)" using True by (metis add.right_neutral mult_div_mod_eq)
  then have "y - 1 = n * (y div n - 1) + (n - 1)" by (simp add: algebra_simps)
  then have "(y - 1) div n = y div n - 1"
    using assms by (intro int_div_pos_eq[where r = "n - 1"]) auto
  with True show ?thesis by simp
next
  case False
  have m: "0 \<le> y mod n" "y mod n < n" using assms by simp_all
  have "y - 1 = n * (y div n) + (y mod n - 1)" by simp
  then have "(y - 1) div n = y div n"
    using assms m False by (intro int_div_pos_eq[where r = "y mod n - 1"]) auto
  with False show ?thesis by simp
qed

lemma mod_dvd_trans:
  assumes "(a::int) dvd b" "y mod b = 0"
  shows "y mod a = 0"
  using assms by (meson dvd_trans mod_eq_0_iff_dvd)

lemma leap_sum:
  fixes a4 b4 c4 a100 b100 c100 a400 b400 c400 y :: int
  assumes "a4 = b4 + c4" "a100 = b100 + c100" "a400 = b400 + c400"
  shows "365 * y + a4 - a100 + a400 =
         365 * (y - 1) + b4 - b100 + b400 + (365 + c4 - c100 + c400)"
  using assms by simp

lemma days_before_year_Suc:
  "days_before_year (y + 1) = days_before_year y + (if is_leap y then 366 else 365)"
proof -
  have m1: "y mod 100 = 0 \<Longrightarrow> y mod 4 = 0"
    by (rule mod_dvd_trans[of 4 100]) simp_all
  have m2: "y mod 400 = 0 \<Longrightarrow> y mod 100 = 0"
    by (rule mod_dvd_trans[of 100 400]) simp_all
  have l: "(365::int) + (if y mod 4 = 0 then 1 else 0) - (if y mod 100 = 0 then 1 else 0)
             + (if y mod 400 = 0 then 1 else 0) = (if is_leap y then 366 else 365)"
    using m1 m2 by (auto simp: is_leap_def)
  have e: "days_before_year (y + 1) = 365 * y + y div 4 - y div 100 + y div 400"
    by (simp add: days_before_year_def)
  have f: "days_before_year y = 365 * (y - 1) + (y - 1) div 4 - (y - 1) div 100 + (y - 1) div 400"
    by (simp add: days_before_year_def Let_def)
  have "365 * y + y div 4 - y div 100 + y div 400 =
         365 * (y - 1) + (y - 1) div 4 - (y - 1) div 100 + (y - 1) div 400 +
         (365 + (if y mod 4 = 0 then 1 else 0) - (if y mod 100 = 0 then 1 else 0)
             + (if y mod 400 = 0 then 1 else 0))"
    by (rule leap_sum) (rule div_step, simp)+
  then show ?thesis by (simp only: e f l)
qed

lemma days_in_month_ge: "28 \<le> days_in_month y m"
  by (simp add: days_in_month_def)

lemma next_day_ord:
  assumes v: "valid_date d" and nm: "\<not> (year d = 9999 \<and> month d = 12 \<and> day d = 31)"
  shows "valid_date (next_day d)" and "toordinal (next_day d) = toordinal d + 1"
proof -
  from v have r: "1 \<le> year d" "year d \<le> 9999" "1 \<le> month d" "month d \<le> 12" "1 \<le> day d"
    "day d \<le> days_in_month (year d) (month d)"
    by (simp_all add: valid_date_def)
  consider (a) "day d < days_in_month (year d) (month d)"
    | (b) "day d = days_in_month (year d) (month d)" "month d < 12"
    | (c) "day d = days_in_month (year d) (month d)" "month d = 12"
    using r by linarith
  then have "valid_date (next_day d) \<and> toordinal (next_day d) = toordinal d + 1"
  proof cases
    case a
    with r show ?thesis by (simp add: next_day_def valid_date_def toordinal_def)
  next
    case b
    have "next_day d = d\<lparr>month := month d + 1, day := 1\<rparr>" using b by (simp add: next_day_def)
    moreover have "1 \<le> days_in_month (year d) (month d + 1)"
      using days_in_month_ge[of "year d" "month d + 1"] by linarith
    ultimately show ?thesis
      using r b by (simp add: valid_date_def toordinal_def days_before_month_Suc)
  next
    case c
    then have d31: "day d = 31" by (simp add: days_in_month_def)
    with c nm r have y: "year d \<le> 9998" by linarith
    have n: "next_day d = \<lparr>year = year d + 1, month = 1, day = 1\<rparr>"
      using c by (simp add: next_day_def)
    have "toordinal (next_day d) = days_before_year (year d) + (if is_leap (year d) then 366 else 365) + 1"
      by (simp add: n toordinal_def days_before_year_Suc days_before_month_1)
    moreover have "toordinal d = days_before_year (year d) + (if is_leap (year d) then 335 else 334) + 31"
      using c d31 by (simp add: toordinal_def days_before_month_12)
    ultimately have "toordinal (next_day d) = toordinal d + 1" by simp
    moreover have "valid_date (next_day d)"
      using r y by (simp add: n valid_date_def days_in_month_def)
    ultimately show ?thesis by simp
  qed
  then show "valid_date (next_day d)" and "toordinal (next_day d) = toordinal d + 1" by simp_all
qed

lemma plus_days_ord:
  "valid_date d \<Longrightarrow> plus_days d n = Inr d' \<Longrightarrow>
     valid_date d' \<and> toordinal d' = toordinal d + int n"
proof (induction n arbitrary: d)
  case 0
  then show ?case by simp
next
  case (Suc n)
  from Suc.prems(2) have nm: "\<not> (year d = 9999 \<and> month d = 12 \<and> day d = 31)"
    and p: "plus_days (next_day d) n = Inr d'"
    by (auto split: if_splits)
  from next_day_ord[OF Suc.prems(1) nm] Suc.IH[OF _ p] show ?case by simp
qed

lemma add_days_ord:
  assumes "valid_date d" "0 \<le> k" "add_days d k = Inr d'"
  shows "valid_date d'" and "toordinal d' = toordinal d + k"
proof -
  from assms(2,3) have "plus_days d (nat k) = Inr d'"
    by (simp add: add_days_def split: if_splits)
  from plus_days_ord[OF assms(1) this] assms(2)
  show "valid_date d'" and "toordinal d' = toordinal d + k" by simp_all
qed

lemma plus_days_total:
  "valid_date d \<Longrightarrow> toordinal d + int n \<le> toordinal \<lparr>year = 9999, month = 12, day = 31\<rparr> \<Longrightarrow>
     \<exists>d'. plus_days d n = Inr d'"
proof (induction n arbitrary: d)
  case 0
  then show ?case by simp
next
  case (Suc n)
  have nm: "\<not> (year d = 9999 \<and> month d = 12 \<and> day d = 31)"
  proof
    assume "year d = 9999 \<and> month d = 12 \<and> day d = 31"
    then have "d = \<lparr>year = 9999, month = 12, day = 31\<rparr>" by simp
    with Suc.prems(2) show False by simp
  qed
  from next_day_ord[OF Suc.prems(1) nm] Suc.prems(2)
  have "valid_date (next_day d)"
    "toordinal (next_day d) + int n \<le> toordinal \<lparr>year = 9999, month = 12, day = 31\<rparr>"
    by simp_all
  from Suc.IH[OF this] nm show ?case by simp
qed

lemma add_days_total:
  assumes "valid_date d" "0 \<le> k" "k \<le> 6"
    "toordinal d + k \<le> toordinal \<lparr>year = 9999, month = 12, day = 31\<rparr>"
  shows "\<exists>d'. add_days d k = Inr d'"
proof -
  from assms(2,4) have "toordinal d + int (nat k) \<le> toordinal \<lparr>year = 9999, month = 12, day = 31\<rparr>"
    by simp
  from plus_days_total[OF assms(1) this] assms(2,3) show ?thesis
    by (simp add: add_days_def)
qed

lemma weekday_range: "0 \<le> weekday d" "weekday d \<le> 6"
  by (simp_all add: weekday_def)

lemma weekday_shift:
  assumes "toordinal d' = toordinal d + (t - weekday d)" "0 \<le> t" "t \<le> 6"
  shows "weekday d' = t"
proof -
  have "weekday d' = (toordinal d + 6 - weekday d + t) mod 7"
    by (simp add: weekday_def assms(1) algebra_simps)
  also have "(toordinal d + 6 - weekday d) mod 7 = 0"
    by (simp add: weekday_def minus_mod_eq_mult_div)
  then have "(toordinal d + 6 - weekday d + t) mod 7 = t mod 7"
    by (metis add.left_neutral mod_add_left_eq)
  finally show ?thesis using assms(2,3) by simp
qed

section \<open>What the expression for "this <weekday>" captures\<close>

lemma lit_match_exact:
  "lit_match False w p r = Some (p', r') \<Longrightarrow> r = w @ r'"
proof (induction w arbitrary: p r)
  case Nil
  then show ?case by simp
next
  case (Cons a w)
  then show ?case by (cases r) (auto simp: chr_eq_def split: if_splits)
qed

lemma mt_Lit_exact:
  assumes "(p', r', g') \<in> set (mt False (Lit w) (p, r, g))"
  shows "r = w @ r'" and "g' = g"
proof -
  from assms have l: "lit_match False w p r = Some (p', r')" and g: "g' = g"
    by (auto split: option.splits)
  from l show "r = w @ r'" by (rule lit_match_exact)
  show "g' = g" by (rule g)
qed

lemma mt_Grp_Alt_Lits:
  assumes "(p', r', g') \<in> set (mt False (Grp (Alt (map Lit ws))) (p, r, g))"
  shows "\<exists>w \<in> set ws. g' = g @ [w]"
proof -
  from assms obtain g0 where
    a: "(p', r', g0) \<in> set (mt False (Alt (map Lit ws)) (p, r, g))"
    and g': "g' = g0 @ [take (length r - length r') r]"
    by auto
  from a obtain w where w: "w \<in> set ws" "(p', r', g0) \<in> set (mt False (Lit w) (p, r, g))"
    by auto
  from mt_Lit_exact[OF w(2)] have "r = w @ r'" "g0 = g" by simp_all
  then have "take (length r - length r') r = w" by simp
  with g' \<open>g0 = g\<close> w(1) show ?thesis by auto
qed

lemma mt_Seq_Cons:
  "st' \<in> set (mt ic (Seq (e # es)) st) \<longleftrightarrow>
     (\<exists>x \<in> set (mt ic e st). st' \<in> set (mt ic (Seq es) x))"
  by simp

lemma mt_Seq_Nil: "st' \<in> set (mt ic (Seq []) st) \<longleftrightarrow> st' = st"
  by auto

lemma search_from_groups:
  assumes "\<And>p r st. st \<in> set (mt ic e (p, r, [])) \<Longrightarrow> P (snd (snd st))"
    and "search_from ic e p0 t = Some g"
  shows "P g"
  using assms(2)
proof (induction t arbitrary: p0)
  case Nil
  then obtain st sts where s: "mt ic e (p0, [], []) = st # sts" "snd (snd st) = g"
    by (auto split: list.splits)
  then have "st \<in> set (mt ic e (p0, [], []))" by simp
  from assms(1)[OF this] s(2) show ?case by simp
next
  case (Cons x xs)
  show ?case
  proof (cases "mt ic e (p0, x # xs, [])")
    case Nil
    with Cons show ?thesis by simp
  next
    case (Cons st sts)
    with Cons.prems have "snd (snd st) = g" by (auto split: prod.splits)
    moreover have "st \<in> set (mt ic e (p0, x # xs, []))" using Cons by simp
    ultimately show ?thesis using assms(1) by blast
  qed
qed

lemma this_weekday_group:
  assumes "search re_this_weekday t = Some g"
  shows "\<exists>w \<in> set (map fst day_map). g = [w]"
proof (rule search_from_groups[where P = "\<lambda>g. \<exists>w \<in> set (map fst day_map). g = [w]"])
  show "search_from False re_this_weekday None t = Some g"
    using assms by (simp add: search_def)
next
  fix p r st
  let ?names = "[''monday'', ''tuesday'', ''wednesday'', ''thursday'', ''friday'', ''saturday'',
                 ''sunday'']"
  have names: "[Lit ''monday'', Lit ''tuesday'', Lit ''wednesday'', Lit ''thursday'',
      Lit ''friday'', Lit ''saturday'', Lit ''sunday''] = map Lit ?names"
    by simp
  assume "st \<in> set (mt False re_this_weekday (p, r, []))"
  then have "\<exists>s1 \<in> set (mt False Bnd (p, r, [])). \<exists>s2 \<in> set (mt False (Lit ''this'') s1).
      \<exists>s3 \<in> set (mt False (Plus CSpace) s2).
      \<exists>s4 \<in> set (mt False (Grp (Alt (map Lit ?names))) s3). st \<in> set (mt False Bnd s4)"
    by (simp only: re_this_weekday_def mt_Seq_Cons mt_Seq_Nil names) blast
  then obtain s1 s2 s3 s4 where
    s: "s1 \<in> set (mt False Bnd (p, r, []))" "s2 \<in> set (mt False (Lit ''this'') s1)"
       "s3 \<in> set (mt False (Plus CSpace) s2)"
       "s4 \<in> set (mt False (Grp (Alt (map Lit ?names))) s3)"
       "st \<in> set (mt False Bnd s4)"
    by blast
  have g1: "snd (snd s1) = []" using mt_groupless[OF _ s(1)] by simp
  have g2: "snd (snd s2) = []" using mt_groupless[OF _ s(2)] g1 by simp
  have g3: "snd (snd s3) = []" using mt_groupless[OF _ s(3)] g2 by simp
  obtain p3 r3 where s3: "s3 = (p3, r3, [])" using g3 by (cases s3) auto
  obtain p4 r4 g4 where s4: "s4 = (p4, r4, g4)" by (cases s4)
  have "(p4, r4, g4) \<in> set (mt False (Grp (Alt (map Lit ?names))) (p3, r3, []))"
    using s(4) by (simp only: s3 s4)
  from mt_Grp_Alt_Lits[OF this] obtain w where w: "w \<in> set ?names" "g4 = [w]"
    by (metis append_Nil)
  have "snd (snd st) = g4" using mt_groupless[OF _ s(5)] s4 by simp
  with w show "\<exists>w \<in> set (map fst day_map). snd (snd st) = [w]"
    by (auto simp: day_map_def)
qed

lemma day_map_lower:
  "list_all (\<lambda>(w, n). get_default day_map (lower w) 0 = n \<and> 0 \<le> n \<and> n \<le> 6) day_map"
  by code_simp

lemma day_map_number:
  assumes "w \<in> set (map fst day_map)"
  shows "(w, get_default day_map (lower w) 0) \<in> set day_map"
    and "0 \<le> get_default day_map (lower w) 0" and "get_default day_map (lower w) 0 \<le> 6"
proof -
  from assms obtain n where n: "(w, n) \<in> set day_map" by auto
  with day_map_lower have "get_default day_map (lower w) 0 = n \<and> 0 \<le> n \<and> n \<le> 6"
    by (auto simp: list_all_iff)
  with n show "(w, get_default day_map (lower w) 0) \<in> set day_map"
    and "0 \<le> get_default day_map (lower w) 0" and "get_default day_map (lower w) 0 \<le> 6"
    by simp_all
qed

section \<open>The due date of a command\<close>

lemma dec_nonempty: "dec n \<noteq> []"
  by (subst dec.simps) simp

lemma strftime_nonempty: "strftime d \<noteq> []"
  by (simp add: strftime_def dec_nonempty)

lemma command_due_date:
  assumes "extract_command_details e ct u m = Inr c"
  obtains due where "parse_due_date e u = Inr due"
    "c ''due_date'' = (case due of None \<Rightarrow> None
                       | Some x \<Rightarrow> if x \<noteq> [] then Some (PyStr x) else None)"
proof -
  from assms obtain en d where
    en: "extract_entities e u = Inr en" and
    c: "c = [''command_type'' \<mapsto> PyStr ct, ''confidence'' \<mapsto> PyFloat (9 / 10),
             ''raw_input'' \<mapsto> PyStr u] ++ en ++ d" and
    d: "dom d \<subseteq> {''title'', ''description'', ''tags'', ''query'', ''task_id'', ''field'',
                  ''value''}"
    by (rule details_shape)
  have "''due_date'' \<notin> dom d" using d by auto
  then have cd: "c ''due_date'' = en ''due_date''"
    by (auto simp: c map_add_def domIff split: option.splits)
  from en obtain due where due: "parse_due_date e u = Inr due"
    and "en ''due_date'' = (case due of None \<Rightarrow> None
                            | Some x \<Rightarrow> if x \<noteq> [] then Some (PyStr x) else None)"
    unfolding extract_entities_def Let_def
    by (elim bind_InrE) (auto split: option.splits if_splits)
  with cd show ?thesis by (intro that[of due]) simp_all
qed

lemma parse_due_date_this_weekday:
  assumes "list_all (\<lambda>r. \<not> found (search r (lower u))) earlier_due_rules"
    and "search re_this_weekday (lower u) = Some g"
  shows "parse_due_date e u = bind (group g 1) (get_this_weekday e)"
proof -
  from assms(1) have "search re_next_weekday (lower u) = None"
    by (simp add: earlier_due_rules_def found_def)
  with assms show ?thesis
    by (simp add: parse_due_date_def Let_def earlier_due_rules_def)
qed

lemma iso_Inr: "iso r = Inr x \<Longrightarrow> \<exists>d. r = Inr d \<and> x = Some (strftime d)"
  by (auto simp: iso_def elim!: bind_InrE)

section \<open>What the order of a set can change\<close>





















section \<open>The claims\<close>

subsection \<open>C1: parse never raises\<close>

text \<open>
  C1 says that \<open>parse\<close> returns a Command for every input and never raises, also when
  "in N months" starts from a day that the target month does not have. The code does
  raise there: with the anchor 2024-01-31, "in 1 month" asks for
  \<open>today.replace(year=2024, month=2)\<close>, the 31st of February, which is a ValueError, and
  nothing between \<open>_parse_due_date\<close> and the caller of \<open>parse_command\<close> catches it.
\<close>

theorem parse_command_in_months_raises:
  "parse_command (example_env \<lparr>year = 2024, month = 1, day = 31\<rparr>) ''list tasks in 1 month''
     = Inl ValueError"
proof -
  have "case parse_command (example_env \<lparr>year = 2024, month = 1, day = 31\<rparr>)
               ''list tasks in 1 month'' of
          Inl err \<Rightarrow> err = ValueError | Inr c \<Rightarrow> False"
    by code_simp
  then show ?thesis by (simp split: sum.splits)
qed

subsection \<open>C2: a high priority task to buy groceries tomorrow\<close>

text \<open>
  C2 says that "add a high priority task to buy groceries tomorrow" is an add_task with
  priority high, tomorrow's date and the tags shopping and tomorrow. In the code no
  pattern rule is found in this sentence (the words "high priority" stand between "a"
  and "task"), so the command is inferred from the keyword "add": confidence 0.7, a
  title, and no priority, no due date and no tags, whatever the anchor date.
\<close>

theorem parse_command_groceries_inferred:
  "map (lookup (parse_command e ''add a high priority task to buy groceries tomorrow''))
     [''command_type'', ''confidence'', ''title'', ''priority'', ''due_date'', ''tags'']
   = [Inr (Some (PyStr ''add_task'')), Inr (Some (PyFloat (7 / 10))),
      Inr (Some (PyStr ''high priority to'')), Inr None, Inr None, Inr None]"
  by code_simp

subsection \<open>C3: a quoted title\<close>

text \<open>
  C3 says that a quoted title is returned character for character, in its letter case.
  The code matches the patterns against the lower-cased input and takes the title from
  that match, so the title of \<open>add task "Buy Milk"\<close> is \<open>buy milk\<close>.
\<close>

theorem quoted_title_is_lowercased:
  "lookup (parse_command e (''add task '' @ [CHR 0x22] @ ''Buy Milk'' @ [CHR 0x22])) ''title''
     = Inr (Some (PyStr ''buy milk''))"
  by code_simp

subsection \<open>C4: due dates are valid calendar dates\<close>

text \<open>
  C4 says that a due date, when present, is a valid calendar date, also for "13/45/2020".
  The code copies the digits of a numeric date without checking them: the due date of
  "list tasks 13/45/2020" is the string 2020-13-45.
\<close>

theorem numeric_date_is_not_validated:
  "lookup (parse_command e ''list tasks 13/45/2020'') ''due_date''
     = Inr (Some (PyStr ''2020-13-45''))"
  by code_simp

subsection \<open>C5: the first rule found decides, with confidence 0.9\<close>

text \<open>
  C5: when at least one pattern rule is found in the trimmed, lower-cased input, the
  category returned is that of the first such rule in the declared order of categories
  and patterns, the details are built from the match of that rule, and the confidence
  is 0.9. Whatever stands after that rule in the table (later patterns of the category,
  later categories) has no part in the result: replacing it by anything else gives the
  same rule and the same match.
\<close>

theorem first_match_wins:
  assumes "matching_rules command_patterns (lower (strip s)) \<noteq> []"
  shows "\<exists>ct i m cs1 ps cs2.
           hd (matching_rules command_patterns (lower (strip s))) = (ct, i) \<and>
           command_patterns = cs1 @ (ct, ps) # cs2 \<and> i < length ps \<and>
           search_ic (ps ! i) (lower (strip s)) = Some m \<and>
           (\<forall>ps' cs2'. first_command (cs1 @ (ct, take (Suc i) ps @ ps') # cs2') (lower (strip s))
               = Some (ct, i, m)) \<and>
           parse_command e s = extract_command_details e ct (strip s) m \<and>
           (\<forall>c. parse_command e s = Inr c \<longrightarrow>
              c ''command_type'' = Some (PyStr ct) \<and> c ''confidence'' = Some (PyFloat (9 / 10)))"
proof -
  let ?t = "lower (strip s)"
  from assms have "first_command command_patterns ?t \<noteq> None"
    by (simp add: matching_rules_Nil)
  then obtain ct i m where fc: "first_command command_patterns ?t = Some (ct, i, m)"
    by (cases "first_command command_patterns ?t") auto
  from matching_rules_hd[OF fc] have hd: "hd (matching_rules command_patterns ?t) = (ct, i)"
    by auto
  from first_command_Some[OF fc] obtain cs1 ps cs2 where
    h: "command_patterns = cs1 @ (ct, ps) # cs2"
       "\<forall>(c, qs) \<in> set cs1. \<forall>p \<in> set qs. search_ic p ?t = None"
       "i < length ps" "search_ic (ps ! i) ?t = Some m" "\<forall>j < i. search_ic (ps ! j) ?t = None"
    by blast
  have stop: "first_command (cs1 @ (ct, take (Suc i) ps @ ps') # cs2') ?t = Some (ct, i, m)"
    for ps' cs2'
    using first_pattern_prefix[OF h(3,4,5), of ps' 0]
    by (simp add: first_command_skip[OF h(2)])
  have p: "parse_command e s = extract_command_details e ct (strip s) m"
    by (simp add: parse_command_def fc)
  have "c ''command_type'' = Some (PyStr ct) \<and> c ''confidence'' = Some (PyFloat (9 / 10))"
    if "parse_command e s = Inr c" for c
    using that base_fields[of e ct "strip s" m c] by (simp add: p)
  with hd h(1,3,4) stop p show ?thesis by blast
qed

text \<open>
  "list all tasks": the first rule found is the first pattern of list_tasks, and the
  call returns list_tasks with confidence 0.9, which is at least 0.8.
\<close>

theorem first_match_wins_witness:
  "matching_rules command_patterns (lower (strip ''list all tasks'')) \<noteq> [] \<and>
   hd (matching_rules command_patterns (lower (strip ''list all tasks''))) = (''list_tasks'', 0) \<and>
   lookup (parse_command (example_env \<lparr>year = 2024, month = 1, day = 15\<rparr>) ''list all tasks'')
     ''command_type'' = Inr (Some (PyStr ''list_tasks'')) \<and>
   lookup (parse_command (example_env \<lparr>year = 2024, month = 1, day = 15\<rparr>) ''list all tasks'')
     ''confidence'' = Inr (Some (PyFloat (9 / 10))) \<and>
   (8 / 10 :: rat) \<le> 9 / 10"
proof -
  let ?e = "example_env \<lparr>year = 2024, month = 1, day = 15\<rparr>"
  let ?s = "''list all tasks''"
  have ne: "matching_rules command_patterns (lower (strip ?s)) \<noteq> []"
    by code_simp
  have hd: "hd (matching_rules command_patterns (lower (strip ?s))) = (''list_tasks'', 0)"
    by code_simp
  have "\<not> isl (parse_command ?e ?s)"
    by code_simp
  then obtain c where c: "parse_command ?e ?s = Inr c"
    by (cases "parse_command ?e ?s") auto
  from first_match_wins[OF ne, of ?e] obtain ct i where
    "hd (matching_rules command_patterns (lower (strip ?s))) = (ct, i)"
    "\<forall>c. parse_command ?e ?s = Inr c \<longrightarrow>
       c ''command_type'' = Some (PyStr ct) \<and> c ''confidence'' = Some (PyFloat (9 / 10))"
    by blast
  with hd c have "c ''command_type'' = Some (PyStr ''list_tasks'')"
    "c ''confidence'' = Some (PyFloat (9 / 10))" by auto
  with ne hd c show ?thesis by (simp add: lookup_def)
qed

subsection \<open>C9: the raw input\<close>

lemma infer_raw_input:
  assumes "infer_command u = Inr c"
  shows "c ''raw_input'' = Some (PyStr u)"
  using assms unfolding infer_command_def Let_def
  by (auto split: if_splits elim!: bind_InrE)

text \<open>
  C9 says that raw_input is the input text verbatim, with its leading and trailing
  whitespace. The code strips the input first and keeps the stripped text.
\<close>

theorem raw_input_counterexample:
  "lookup (parse_command (example_env \<lparr>year = 2024, month = 1, day = 15\<rparr>) ''  list tasks  '')
     ''raw_input'' = Inr (Some (PyStr ''list tasks'')) \<and>
   lookup (parse_command (example_env \<lparr>year = 2024, month = 1, day = 15\<rparr>) ''  list tasks  '')
     ''raw_input'' \<noteq> Inr (Some (PyStr ''  list tasks  ''))"
proof -
  have "lookup (parse_command (example_env \<lparr>year = 2024, month = 1, day = 15\<rparr>)
      ''  list tasks  '') ''raw_input'' = Inr (Some (PyStr ''list tasks''))"
    by code_simp
  then show ?thesis by simp
qed

text \<open>
  C9 as amended: whenever the call returns, raw_input is the input with its leading and
  trailing whitespace removed; inside, nothing is changed (letter case included).
\<close>

theorem raw_input_is_stripped_input:
  assumes "parse_command e s = Inr c"
  shows "c ''raw_input'' = Some (PyStr (strip s))"
proof (cases "first_command command_patterns (lower (strip s))")
  case None
  with assms have "infer_command (strip s) = Inr c" by (simp add: parse_command_def)
  then show ?thesis by (rule infer_raw_input)
next
  case (Some r)
  obtain ct i m where "r = (ct, i, m)" by (cases r)
  with Some assms have "extract_command_details e ct (strip s) m = Inr c"
    by (simp add: parse_command_def)
  then show ?thesis by (rule base_fields(3))
qed

theorem raw_input_is_stripped_input_witness:
  "lookup (parse_command (example_env \<lparr>year = 2024, month = 1, day = 15\<rparr>) '' Add Task  '')
     ''raw_input'' = Inr (Some (PyStr ''Add Task''))"
proof -
  let ?e = "example_env \<lparr>year = 2024, month = 1, day = 15\<rparr>"
  have "\<not> isl (parse_command ?e '' Add Task  '')"
    by code_simp
  then obtain c where c: "parse_command ?e '' Add Task  '' = Inr c"
    by (cases "parse_command ?e '' Add Task  ''") auto
  have s: "strip '' Add Task  '' = ''Add Task''"
    by code_simp
  from raw_input_is_stripped_input[OF c] show ?thesis by (simp add: lookup_def c s)
qed

subsection \<open>C6: marking a task as completed\<close>

text \<open>
  C6 says that for every two-group update match whose captured value contains
  "complete", "done" or "finish" the normalized value is "completed". The code
  normalizes by field: the value becomes "completed" only when the field is the status.
  In "mark 5 priority as done" the word "priority" makes the field the priority, and the
  captured value "done" becomes "medium".
\<close>

theorem update_value_counterexample:
  "first_command command_patterns (lower (strip ''mark 5 priority as done''))
     = Some (''update_task'', 15, [''5'', ''done'']) \<and>
   ngroups (update_task_patterns ! 15) = 2 \<and>
   any_in [''complete'', ''done'', ''finish''] (lower ''done'') \<and>
   lookup (parse_command (example_env \<lparr>year = 2024, month = 1, day = 15\<rparr>)
     ''mark 5 priority as done'') ''field'' = Inr (Some (PyStr ''priority'')) \<and>
   lookup (parse_command (example_env \<lparr>year = 2024, month = 1, day = 15\<rparr>)
     ''mark 5 priority as done'') ''value'' = Inr (Some (PyStr ''medium''))"
  by code_simp

text \<open>
  C6 as amended: for a match of a two-group update pattern whose second group contains
  "complete", "done" or "finish", in an input that names no other field (none of
  priority, important, title, name, description, desc occurs in it), a returned Command
  has category update_task, the number of the first group as task_id, field "status"
  and value "completed". "mark task 5 as completed" is such an input (the witness).
\<close>

theorem update_value_completed:
  assumes fc: "first_command command_patterns (lower (strip s)) = Some (''update_task'', i, m)"
    and two: "ngroups (update_task_patterns ! i) = 2"
    and val: "any_in [''complete'', ''done'', ''finish''] (lower (m ! 1))"
    and nokw: "\<not> any_in field_keywords (lower (strip s))"
    and ret: "parse_command e s = Inr c"
  shows "length m = 2 \<and>
         c ''command_type'' = Some (PyStr ''update_task'') \<and>
         c ''task_id'' = Some (PyInt (digits_to_int (m ! 0))) \<and>
         c ''field'' = Some (PyStr ''status'') \<and>
         c ''value'' = Some (PyStr ''completed'')"
proof -
  from first_command_Some[OF fc] obtain cs1 ps cs2 where
    h: "command_patterns = cs1 @ (''update_task'', ps) # cs2" "i < length ps"
       "search_ic (ps ! i) (lower (strip s)) = Some m"
    by blast
  from command_patterns_update[OF h(1)] have ps: "ps = update_task_patterns" .
  from update_patterns_flat h(2) have "flat (update_task_patterns ! i)"
    by (simp add: ps list_all_length)
  from search_ic_ngroups[OF this] h(3) two have len: "length m = 2" by (simp add: ps)
  from ret fc have r: "extract_command_details e ''update_task'' (strip s) m = Inr c"
    by (simp add: parse_command_def)
  from r obtain d where d: "extract_update_details e (strip s) m = Inr d"
    "c ''task_id'' = d ''task_id''" "c ''field'' = d ''field''" "c ''value'' = d ''value''"
    by (rule update_command_fields)
  from len have ne: "m \<noteq> []" "1 < length m" by auto
  from update_status_details(1)[OF d(1) nokw] update_status_details(2)[OF d(1) nokw ne(1)]
    update_status_details(3)[OF d(1) nokw ne(2) val] base_fields(1)[OF r] d(2,3,4) len
  show ?thesis by simp
qed

theorem update_value_completed_witness:
  "first_command command_patterns (lower (strip ''mark task 5 as completed''))
     = Some (''update_task'', 0, [''5'', ''completed'']) \<and>
   ngroups (update_task_patterns ! 0) = 2 \<and>
   any_in [''complete'', ''done'', ''finish''] (lower ([''5'', ''completed''] ! 1)) \<and>
   \<not> any_in field_keywords (lower (strip ''mark task 5 as completed'')) \<and>
   map (lookup (parse_command (example_env \<lparr>year = 2024, month = 1, day = 15\<rparr>)
          ''mark task 5 as completed''))
     [''command_type'', ''task_id'', ''field'', ''value'']
   = [Inr (Some (PyStr ''update_task'')), Inr (Some (PyInt 5)), Inr (Some (PyStr ''status'')),
      Inr (Some (PyStr ''completed''))]"
proof -
  let ?e = "example_env \<lparr>year = 2024, month = 1, day = 15\<rparr>"
  let ?s = "''mark task 5 as completed''"
  have fc: "first_command command_patterns (lower (strip ?s))
     = Some (''update_task'', 0, [''5'', ''completed''])"
    by code_simp
  have two: "ngroups (update_task_patterns ! 0) = 2"
    by code_simp
  have val: "any_in [''complete'', ''done'', ''finish''] (lower ([''5'', ''completed''] ! 1))"
    by code_simp
  have nokw: "\<not> any_in field_keywords (lower (strip ?s))"
    by code_simp
  have "\<not> isl (parse_command ?e ?s)"
    by code_simp
  then obtain c where c: "parse_command ?e ?s = Inr c"
    by (cases "parse_command ?e ?s") auto
  have five: "digits_to_int ([''5'', ''completed''] ! 0) = 5"
    by code_simp
  from update_value_completed[OF fc two val nokw c] five
  have "c ''command_type'' = Some (PyStr ''update_task'')" "c ''task_id'' = Some (PyInt 5)"
    "c ''field'' = Some (PyStr ''status'')" "c ''value'' = Some (PyStr ''completed'')"
    by simp_all
  with fc two val nokw show ?thesis by (simp add: lookup_def c)
qed

subsection \<open>C10: "complete task N" sets the status to pending\<close>

text \<open>
  C10 says that every input matched by a single-group update pattern ("complete task N",
  "finish task N") that names no field comes back with field "status" and value
  "pending". A pattern that matches is not always the rule that decides. In "complete
  task 5 from my tasks" the rule "my tasks" of list_tasks stands earlier in the table:
  the Command is a list_tasks and has neither field nor value. In "mark task 3 as done
  and complete task 5" the first update pattern decides, and the value is "completed".
\<close>

theorem single_group_update_counterexample:
  "found (search_ic (update_task_patterns ! 5) (lower (strip ''complete task 5 from my tasks''))) \<and>
   ngroups (update_task_patterns ! 5) = 1 \<and>
   \<not> any_in field_keywords (lower (strip ''complete task 5 from my tasks'')) \<and>
   map (lookup (parse_command (example_env \<lparr>year = 2024, month = 1, day = 15\<rparr>)
          ''complete task 5 from my tasks'')) [''command_type'', ''field'', ''value'']
     = [Inr (Some (PyStr ''list_tasks'')), Inr None, Inr None] \<and>
   found (search_ic (update_task_patterns ! 5)
     (lower (strip ''mark task 3 as done and complete task 5''))) \<and>
   \<not> any_in field_keywords (lower (strip ''mark task 3 as done and complete task 5'')) \<and>
   map (lookup (parse_command (example_env \<lparr>year = 2024, month = 1, day = 15\<rparr>)
          ''mark task 3 as done and complete task 5''))
       [''command_type'', ''task_id'', ''field'', ''value'']
     = [Inr (Some (PyStr ''update_task'')), Inr (Some (PyInt 3)), Inr (Some (PyStr ''status'')),
        Inr (Some (PyStr ''completed''))]"
  by code_simp

text \<open>
  C10 as amended: when the first rule found in the input, which is the rule that decides,
  is an update pattern with a single group (they are "complete task N" and "finish task
  N", the patterns 5 and 6 of the list counted from 0) and the input names no field, the
  match has one group, the new value defaults to the empty string, and a returned
  Command has field "status" and value "pending".
\<close>

theorem single_group_update_is_pending:
  assumes fc: "first_command command_patterns (lower (strip s)) = Some (''update_task'', i, m)"
    and one: "ngroups (update_task_patterns ! i) = 1"
    and nokw: "\<not> any_in field_keywords (lower (strip s))"
    and ret: "parse_command e s = Inr c"
  shows "i \<in> {5, 6} \<and> length m = 1 \<and>
         c ''command_type'' = Some (PyStr ''update_task'') \<and>
         c ''task_id'' = Some (PyInt (digits_to_int (m ! 0))) \<and>
         c ''field'' = Some (PyStr ''status'') \<and>
         c ''value'' = Some (PyStr ''pending'')"
proof -
  from first_command_Some[OF fc] obtain cs1 ps cs2 where
    h: "command_patterns = cs1 @ (''update_task'', ps) # cs2" "i < length ps"
       "search_ic (ps ! i) (lower (strip s)) = Some m"
    by blast
  from command_patterns_update[OF h(1)] have ps: "ps = update_task_patterns" .
  from h(2) one have "i \<in> set (filter (\<lambda>i. ngroups (update_task_patterns ! i) = 1)
      [0 ..< length update_task_patterns])"
    by (simp add: ps)
  then have i: "i \<in> {5, 6}" by (simp only: update_patterns_single_group) simp
  from update_patterns_flat h(2) have "flat (update_task_patterns ! i)"
    by (simp add: ps list_all_length)
  from search_ic_ngroups[OF this] h(3) one have len: "length m = 1" by (simp add: ps)
  from ret fc have r: "extract_command_details e ''update_task'' (strip s) m = Inr c"
    by (simp add: parse_command_def)
  from r obtain d where d: "extract_update_details e (strip s) m = Inr d"
    "c ''task_id'' = d ''task_id''" "c ''field'' = d ''field''" "c ''value'' = d ''value''"
    by (rule update_command_fields)
  from len have ne: "m \<noteq> []" "length m \<le> 1" by auto
  from update_status_details(1)[OF d(1) nokw] update_status_details(2)[OF d(1) nokw ne(1)]
    update_status_details(4)[OF d(1) nokw ne(2)] base_fields(1)[OF r] d(2,3,4) len i
  show ?thesis by simp
qed

theorem single_group_update_is_pending_witness:
  "first_command command_patterns (lower (strip ''complete task 5''))
     = Some (''update_task'', 5, [''5'']) \<and>
   ngroups (update_task_patterns ! 5) = 1 \<and>
   \<not> any_in field_keywords (lower (strip ''complete task 5'')) \<and>
   map (lookup (parse_command (example_env \<lparr>year = 2024, month = 1, day = 15\<rparr>)
          ''complete task 5''))
     [''command_type'', ''task_id'', ''field'', ''value'']
   = [Inr (Some (PyStr ''update_task'')), Inr (Some (PyInt 5)), Inr (Some (PyStr ''status'')),
      Inr (Some (PyStr ''pending''))]"
proof -
  let ?e = "example_env \<lparr>year = 2024, month = 1, day = 15\<rparr>"
  let ?s = "''complete task 5''"
  have fc: "first_command command_patterns (lower (strip ?s)) = Some (''update_task'', 5, [''5''])"
    by code_simp
  have one: "ngroups (update_task_patterns ! 5) = 1"
    by code_simp
  have nokw: "\<not> any_in field_keywords (lower (strip ?s))"
    by code_simp
  have "\<not> isl (parse_command ?e ?s)"
    by code_simp
  then obtain c where c: "parse_command ?e ?s = Inr c"
    by (cases "parse_command ?e ?s") auto
  have five: "digits_to_int ([''5''] ! 0) = 5"
    by code_simp
  from single_group_update_is_pending[OF fc one nokw c] five
  have "c ''command_type'' = Some (PyStr ''update_task'')" "c ''task_id'' = Some (PyInt 5)"
    "c ''field'' = Some (PyStr ''status'')" "c ''value'' = Some (PyStr ''pending'')"
    by simp_all
  with fc one nokw show ?thesis by (simp add: lookup_def c)
qed

subsection \<open>C7: "this <weekday>"\<close>

text \<open>
  C7 says that for every input containing "this <weekday>" the due date is that
  weekday's date of the current week when it is today or later. The code extracts
  entities only on the pattern path: an input in which no pattern rule is found is
  classified by keywords and gets no due date. With Monday 2024-01-29 as the anchor,
  "buy milk this friday" comes back without a due date, though Friday is still ahead.
\<close>

theorem this_weekday_counterexample:
  "found (search re_this_weekday (lower (strip ''buy milk this friday''))) \<and>
   list_all (\<lambda>r. \<not> found (search r (lower (strip ''buy milk this friday'')))) earlier_due_rules \<and>
   weekday \<lparr>year = 2024, month = 1, day = 29\<rparr> = 0 \<and>
   get_default day_map ''friday'' 0 = 4 \<and>
   map (lookup (parse_command (example_env \<lparr>year = 2024, month = 1, day = 29\<rparr>)
          ''buy milk this friday'')) [''command_type'', ''due_date'']
     = [Inr (Some (PyStr ''unknown'')), Inr None]"
  by code_simp

text \<open>
  C7 as amended: for every input in which a pattern rule is found, that contains
  "this <weekday>" and none of the due-date phrases ranked before it. When the weekday's
  number is below the anchor's (its day of the current week, Monday to Sunday, is
  already past), the due-date rule returns no date and raises nothing, and a returned
  Command has no due date. Otherwise the rule computes the day that lies
  \<open>t - weekday today\<close> days after the anchor: it returns an ISO date unless that day lies
  after 9999-12-31, and a returned Command has as its due date the ISO date of a valid
  date \<open>d\<close> that lies so many days after the anchor, not before it, and is such a weekday.
\<close>

theorem this_weekday_due_date:
  assumes fc: "first_command command_patterns (lower (strip s)) = Some (ct, i, m)"
    and earlier: "list_all (\<lambda>r. \<not> found (search r (lower (strip s)))) earlier_due_rules"
    and tw: "search re_this_weekday (lower (strip s)) = Some g"
    and v: "valid_date (now e)"
  shows "\<exists>w t. g = [w] \<and> (w, t) \<in> set day_map \<and>
           (t < weekday (now e) \<longrightarrow>
              parse_due_date e (strip s) = Inr None \<and>
              (\<forall>c. parse_command e s = Inr c \<longrightarrow> c ''due_date'' = None)) \<and>
           (weekday (now e) \<le> t \<longrightarrow>
              parse_due_date e (strip s) = iso (add_days (now e) (t - weekday (now e))) \<and>
              (toordinal (now e) + (t - weekday (now e))
                   \<le> toordinal \<lparr>year = 9999, month = 12, day = 31\<rparr> \<longrightarrow>
                 (\<exists>d. parse_due_date e (strip s) = Inr (Some (strftime d)))) \<and>
              (\<forall>c. parse_command e s = Inr c \<longrightarrow>
                 (\<exists>d. valid_date d \<and> toordinal d = toordinal (now e) + (t - weekday (now e)) \<and>
                      toordinal (now e) \<le> toordinal d \<and> weekday d = t \<and>
                      parse_due_date e (strip s) = Inr (Some (strftime d)) \<and>
                      c ''due_date'' = Some (PyStr (strftime d)))))"
proof -
  let ?wd = "weekday (now e)"
  let ?pd = "parse_due_date e (strip s)"
  from this_weekday_group[OF tw] obtain w where w: "w \<in> set (map fst day_map)" "g = [w]"
    by blast
  define t where "t = get_default day_map (lower w) 0"
  from day_map_number[OF w(1)] have t: "(w, t) \<in> set day_map" "0 \<le> t" "t \<le> 6"
    by (simp_all add: t_def)
  from parse_due_date_this_weekday[OF earlier tw, of e] w(2)
  have gw: "?pd = get_this_weekday e w"
    by (simp add: group_def bind_def)
  have cmd: "\<exists>due. ?pd = Inr due \<and>
      c ''due_date'' = (case due of None \<Rightarrow> None
                        | Some x \<Rightarrow> if x \<noteq> [] then Some (PyStr x) else None)"
    if ret: "parse_command e s = Inr c" for c
  proof -
    from ret fc have r: "extract_command_details e ct (strip s) m = Inr c"
      by (simp add: parse_command_def)
    from r obtain due where "?pd = Inr due"
      "c ''due_date'' = (case due of None \<Rightarrow> None
                         | Some x \<Rightarrow> if x \<noteq> [] then Some (PyStr x) else None)"
      by (rule command_due_date)
    then have "?pd = Inr due \<and>
      c ''due_date'' = (case due of None \<Rightarrow> None
                        | Some x \<Rightarrow> if x \<noteq> [] then Some (PyStr x) else None)"
      by (intro conjI)
    then show ?thesis by (rule exI)
  qed
  have past: "t < ?wd \<longrightarrow> ?pd = Inr None \<and>
      (\<forall>c. parse_command e s = Inr c \<longrightarrow> c ''due_date'' = None)"
  proof (intro impI conjI allI)
    assume lt: "t < ?wd"
    from gw lt show n: "?pd = Inr None"
      by (simp add: get_this_weekday_def Let_def t_def)
    fix c
    assume "parse_command e s = Inr c"
    from cmd[OF this] obtain due where "?pd = Inr due"
      "c ''due_date'' = (case due of None \<Rightarrow> None
                         | Some x \<Rightarrow> if x \<noteq> [] then Some (PyStr x) else None)"
      by blast
    with n show "c ''due_date'' = None" by simp
  qed
  have ahead: "?wd \<le> t \<longrightarrow> ?pd = iso (add_days (now e) (t - ?wd)) \<and>
      (toordinal (now e) + (t - ?wd) \<le> toordinal \<lparr>year = 9999, month = 12, day = 31\<rparr> \<longrightarrow>
         (\<exists>d. ?pd = Inr (Some (strftime d)))) \<and>
      (\<forall>c. parse_command e s = Inr c \<longrightarrow>
         (\<exists>d. valid_date d \<and> toordinal d = toordinal (now e) + (t - ?wd) \<and>
              toordinal (now e) \<le> toordinal d \<and> weekday d = t \<and>
              ?pd = Inr (Some (strftime d)) \<and>
              c ''due_date'' = Some (PyStr (strftime d))))"
  proof (rule impI)
    assume le: "?wd \<le> t"
    from le have k: "0 \<le> t - ?wd" by simp
    from weekday_range(1)[of "now e"] t(3) have k6: "t - ?wd \<le> 6" by simp
    from gw le have p: "?pd = iso (add_days (now e) (t - ?wd))"
      by (simp add: get_this_weekday_def Let_def t_def)
    have tot: "toordinal (now e) + (t - ?wd) \<le> toordinal \<lparr>year = 9999, month = 12, day = 31\<rparr>
        \<longrightarrow> (\<exists>d. ?pd = Inr (Some (strftime d)))"
    proof (rule impI)
      assume "toordinal (now e) + (t - ?wd) \<le> toordinal \<lparr>year = 9999, month = 12, day = 31\<rparr>"
      from add_days_total[OF v k k6 this] obtain d where "add_days (now e) (t - ?wd) = Inr d"
        by blast
      with p have "?pd = Inr (Some (strftime d))" by (simp add: iso_def bind_def)
      then show "\<exists>d. ?pd = Inr (Some (strftime d))" by (rule exI)
    qed
    have com: "\<forall>c. parse_command e s = Inr c \<longrightarrow>
        (\<exists>d. valid_date d \<and> toordinal d = toordinal (now e) + (t - ?wd) \<and>
        toordinal (now e) \<le> toordinal d \<and> weekday d = t \<and>
        ?pd = Inr (Some (strftime d)) \<and>
        c ''due_date'' = Some (PyStr (strftime d)))"
    proof (intro allI impI)
      fix c
      assume "parse_command e s = Inr c"
      from cmd[OF this] obtain due where due: "?pd = Inr due"
        "c ''due_date'' = (case due of None \<Rightarrow> None
                           | Some x \<Rightarrow> if x \<noteq> [] then Some (PyStr x) else None)"
        by blast
      from p due(1) have "iso (add_days (now e) (t - ?wd)) = Inr due" by simp
      from iso_Inr[OF this] obtain d where d: "add_days (now e) (t - ?wd) = Inr d"
        "due = Some (strftime d)" by blast
      from add_days_ord[OF v k d(1)] have o: "valid_date d"
        "toordinal d = toordinal (now e) + (t - ?wd)" by simp_all
      from o(2) k have o3: "toordinal (now e) \<le> toordinal d" by simp
      from weekday_shift[OF o(2) t(2,3)] have wd: "weekday d = t" .
      from due(1) d(2) have pd: "?pd = Inr (Some (strftime d))" by simp
      from due(2) d(2) have cd: "c ''due_date'' = Some (PyStr (strftime d))"
        by (simp add: strftime_nonempty)
      from o(1) o(2) o3 wd pd cd
      have "valid_date d \<and> toordinal d = toordinal (now e) + (t - ?wd) \<and>
        toordinal (now e) \<le> toordinal d \<and> weekday d = t \<and>
        ?pd = Inr (Some (strftime d)) \<and>
        c ''due_date'' = Some (PyStr (strftime d))"
        by (intro conjI)
      then show "\<exists>d. valid_date d \<and> toordinal d = toordinal (now e) + (t - ?wd) \<and>
        toordinal (now e) \<le> toordinal d \<and> weekday d = t \<and>
        ?pd = Inr (Some (strftime d)) \<and>
        c ''due_date'' = Some (PyStr (strftime d))"
        by (rule exI)
    qed
    from p tot com show "?pd = iso (add_days (now e) (t - ?wd)) \<and>
      (toordinal (now e) + (t - ?wd) \<le> toordinal \<lparr>year = 9999, month = 12, day = 31\<rparr> \<longrightarrow>
         (\<exists>d. ?pd = Inr (Some (strftime d)))) \<and>
      (\<forall>c. parse_command e s = Inr c \<longrightarrow>
         (\<exists>d. valid_date d \<and> toordinal d = toordinal (now e) + (t - ?wd) \<and>
              toordinal (now e) \<le> toordinal d \<and> weekday d = t \<and>
              ?pd = Inr (Some (strftime d)) \<and>
              c ''due_date'' = Some (PyStr (strftime d))))"
      by (intro conjI)
  qed
  note body = conjI[OF w(2) conjI[OF t(1) conjI[OF past ahead]]]
  show ?thesis
    by (rule exI[where x = w], rule exI[where x = t], rule body)
qed

text \<open>
  On Monday 2024-01-29 "list tasks this friday" is due on 2024-02-02, a Friday; on
  Wednesday 2024-01-31 "list tasks this monday" has no due date.
\<close>

theorem this_weekday_due_date_witness:
  "first_command command_patterns (lower (strip ''list tasks this friday''))
     = Some (''list_tasks'', 0, []) \<and>
   list_all (\<lambda>r. \<not> found (search r (lower (strip ''list tasks this friday'')))) earlier_due_rules \<and>
   search re_this_weekday (lower (strip ''list tasks this friday'')) = Some [''friday''] \<and>
   valid_date (now (example_env \<lparr>year = 2024, month = 1, day = 29\<rparr>)) \<and>
   weekday (now (example_env \<lparr>year = 2024, month = 1, day = 29\<rparr>)) = 0 \<and>
   parse_due_date (example_env \<lparr>year = 2024, month = 1, day = 29\<rparr>)
     (strip ''list tasks this friday'') = Inr (Some ''2024-02-02'') \<and>
   lookup (parse_command (example_env \<lparr>year = 2024, month = 1, day = 29\<rparr>)
            ''list tasks this friday'') ''due_date'' = Inr (Some (PyStr ''2024-02-02'')) \<and>
   weekday \<lparr>year = 2024, month = 2, day = 2\<rparr> = 4 \<and>
   first_command command_patterns (lower (strip ''list tasks this monday''))
     = Some (''list_tasks'', 0, []) \<and>
   list_all (\<lambda>r. \<not> found (search r (lower (strip ''list tasks this monday'')))) earlier_due_rules \<and>
   search re_this_weekday (lower (strip ''list tasks this monday'')) = Some [''monday''] \<and>
   valid_date (now (example_env \<lparr>year = 2024, month = 1, day = 31\<rparr>)) \<and>
   weekday (now (example_env \<lparr>year = 2024, month = 1, day = 31\<rparr>)) = 2 \<and>
   parse_due_date (example_env \<lparr>year = 2024, month = 1, day = 31\<rparr>)
     (strip ''list tasks this monday'') = Inr None \<and>
   lookup (parse_command (example_env \<lparr>year = 2024, month = 1, day = 31\<rparr>)
            ''list tasks this monday'') ''due_date'' = Inr None"
proof -
  let ?e1 = "example_env \<lparr>year = 2024, month = 1, day = 29\<rparr>"
  let ?e2 = "example_env \<lparr>year = 2024, month = 1, day = 31\<rparr>"
  let ?s1 = "''list tasks this friday''"
  let ?s2 = "''list tasks this monday''"
  have fc1: "first_command command_patterns (lower (strip ?s1)) = Some (''list_tasks'', 0, [])"
    by code_simp
  have ea1: "list_all (\<lambda>r. \<not> found (search r (lower (strip ?s1)))) earlier_due_rules"
    by code_simp
  have tw1: "search re_this_weekday (lower (strip ?s1)) = Some [''friday'']"
    by code_simp
  have v1: "valid_date (now ?e1)"
    by code_simp
  have wd1: "weekday (now ?e1) = 0"
    by code_simp
  have wf: "weekday \<lparr>year = 2024, month = 2, day = 2\<rparr> = 4"
    by code_simp
  have sf: "strftime \<lparr>year = 2024, month = 2, day = 2\<rparr> = ''2024-02-02''"
    by code_simp
  have o1: "toordinal (now ?e1) = 738914" "toordinal \<lparr>year = 2024, month = 2, day = 2\<rparr> = 738918"
    by code_simp+
  have "\<not> isl (parse_command ?e1 ?s1)"
    by code_simp
  then obtain c1 where c1: "parse_command ?e1 ?s1 = Inr c1"
    by (cases "parse_command ?e1 ?s1") auto
  have fc2: "first_command command_patterns (lower (strip ?s2)) = Some (''list_tasks'', 0, [])"
    by code_simp
  have ea2: "list_all (\<lambda>r. \<not> found (search r (lower (strip ?s2)))) earlier_due_rules"
    by code_simp
  have tw2: "search re_this_weekday (lower (strip ?s2)) = Some [''monday'']"
    by code_simp
  have v2: "valid_date (now ?e2)"
    by code_simp
  have wd2: "weekday (now ?e2) = 2"
    by code_simp
  have "\<not> isl (parse_command ?e2 ?s2)"
    by code_simp
  then obtain c2 where c2: "parse_command ?e2 ?s2 = Inr c2"
    by (cases "parse_command ?e2 ?s2") auto
  from this_weekday_due_date[OF fc1 ea1 tw1 v1] obtain w t where
    a: "[''friday''] = [w]" "(w, t) \<in> set day_map"
      "weekday (now ?e1) \<le> t \<longrightarrow>
         parse_due_date ?e1 (strip ?s1) = iso (add_days (now ?e1) (t - weekday (now ?e1))) \<and>
         (toordinal (now ?e1) + (t - weekday (now ?e1))
              \<le> toordinal \<lparr>year = 9999, month = 12, day = 31\<rparr> \<longrightarrow>
            (\<exists>d. parse_due_date ?e1 (strip ?s1) = Inr (Some (strftime d)))) \<and>
         (\<forall>c. parse_command ?e1 ?s1 = Inr c \<longrightarrow>
            (\<exists>d. valid_date d \<and> toordinal d = toordinal (now ?e1) + (t - weekday (now ?e1)) \<and>
                 toordinal (now ?e1) \<le> toordinal d \<and> weekday d = t \<and>
                 parse_due_date ?e1 (strip ?s1) = Inr (Some (strftime d)) \<and>
                 c ''due_date'' = Some (PyStr (strftime d))))"
    by (elim exE conjE)
  from a(1,2) have t4: "t = 4" by (auto simp: day_map_def)
  from a(3) wd1 t4 c1 obtain d where
    d: "valid_date d" "toordinal d = 738918"
       "parse_due_date ?e1 (strip ?s1) = Inr (Some (strftime d))"
       "c1 ''due_date'' = Some (PyStr (strftime d))"
    by (auto simp: o1)
  from this_weekday_due_date[OF fc2 ea2 tw2 v2] obtain w' t' where
    b: "[''monday''] = [w']" "(w', t') \<in> set day_map"
      "t' < weekday (now ?e2) \<longrightarrow>
         parse_due_date ?e2 (strip ?s2) = Inr None \<and>
         (\<forall>c. parse_command ?e2 ?s2 = Inr c \<longrightarrow> c ''due_date'' = None)"
    by (elim exE conjE)
  from b(1,2) have "t' = 0" by (auto simp: day_map_def)
  with b(3) wd2 c2 have p2: "parse_due_date ?e2 (strip ?s2) = Inr None"
    and "c2 ''due_date'' = None" by simp_all
  then have r2: "lookup (parse_command ?e2 ?s2) ''due_date'' = Inr None"
    by (simp add: lookup_def c2)
  have pd1: "parse_due_date ?e1 (strip ?s1) = Inr (Some ''2024-02-02'')"
    by code_simp
  with d(3,4) have r1: "lookup (parse_command ?e1 ?s1) ''due_date'' = Inr (Some (PyStr ''2024-02-02''))"
    by (simp add: lookup_def c1)
  note all = fc1 ea1 tw1 v1 wd1 pd1 r1 wf fc2 ea2 tw2 v2 wd2 p2 r2
  show ?thesis
    by (intro conjI) (rule all)+
qed

subsection \<open>C8: the same input gives the same Command\<close>



end
